theory Spec2Isabelle
  imports Main
begin

section \<open>The emergency-room table scraper: \<open>import_state_info\<close>\<close>

text \<open>
  The notebook \<^verbatim>\<open>miniprojects/html_scraping/emergency_room_html_scraping.ipynb\<close> defines one
  function, \<^verbatim>\<open>import_state_info(state_abbrev, hospital_names=False)\<close>. It fetches a page,
  collects the text of every \<^verbatim>\<open>span\<close> element, splits each text at the colons, and
  rebuilds a two-column table of waiting times from the resulting list; on request it
  attaches the texts of the \<^verbatim>\<open>a\<close> elements as row labels.

  The embedding starts where the two Python lists exist: \<open>textlist\<close> as built by the
  first loop of the function, \<open>namelist\<close> as built by the loop inside the \<^verbatim>\<open>try\<close> block.
  A Python string is a list of characters with code points below 256; a Python integer is
  an \<open>int\<close>. The table holds what numpy and pandas store of the integers that the loop
  appends to its two lists.
\<close>

subsection \<open>Exceptions\<close>

text \<open>The two exception classes that the function can raise or catch by name.\<close>

datatype py_error = IndexError | ValueError

type_synonym fragment = "string list"

subsection \<open>Python primitives used by the function\<close>

text \<open>\<^verbatim>\<open>xs[i]\<close> for an index \<open>i \<ge> 0\<close>: out of range raises \<^verbatim>\<open>IndexError\<close>.\<close>

definition py_index :: "'a list \<Rightarrow> nat \<Rightarrow> py_error + 'a" where
  "py_index xs i = (if i < length xs then Inr (xs ! i) else Inl IndexError)"

text \<open>\<^verbatim>\<open>xs[a:b]\<close> for \<open>0 \<le> a\<close> and \<open>0 \<le> b\<close>; it never raises.\<close>

definition py_slice :: "'a list \<Rightarrow> nat \<Rightarrow> nat \<Rightarrow> 'a list" where
  "py_slice xs a b = drop a (take b xs)"

text \<open>
  \<^verbatim>\<open>s.split(sep)\<close> with a one-character separator: every occurrence of the separator
  cuts, adjacent separators give empty pieces, and the result is never empty.
\<close>

fun py_split :: "char \<Rightarrow> string \<Rightarrow> string list" where
  "py_split sep [] = [[]]"
| "py_split sep (c # cs) =
     (if c = sep then [] # py_split sep cs
      else (case py_split sep cs of
              [] \<Rightarrow> [[c]]
            | w # ws \<Rightarrow> (c # w) # ws))"

text \<open>
  \<^verbatim>\<open>int(s)\<close> on a string, base ten, as CPython reads it: white space is skipped on both
  sides (tab, line feed, vertical tab, form feed, carriage return, space, and the two
  white-space characters U+0085 and U+00A0 of the range modelled), one sign is allowed, the
  digits may be grouped by single underscores between digits, and anything else raises
  \<^verbatim>\<open>ValueError\<close>.
\<close>

definition py_isspace :: "char \<Rightarrow> bool" where
  "py_isspace c \<longleftrightarrow> (of_char c :: nat) \<in> set [9, 10, 11, 12, 13, 32, 133, 160]"

definition py_isdigit :: "char \<Rightarrow> bool" where
  "py_isdigit c \<longleftrightarrow> 48 \<le> (of_char c :: nat) \<and> (of_char c :: nat) \<le> 57"

definition digit_value :: "char \<Rightarrow> int" where
  "digit_value c = int (of_char c) - 48"

fun underscores_ok :: "char \<Rightarrow> string \<Rightarrow> bool" where
  "underscores_ok prev [] = (prev \<noteq> CHR ''_'')"
| "underscores_ok prev (c # cs) =
     (if c = CHR ''_'' \<and> prev = CHR ''_'' then False else underscores_ok c cs)"

definition py_int :: "string \<Rightarrow> py_error + int" where
  "py_int s =
     (let s1 = dropWhile py_isspace s;
          neg = (s1 \<noteq> [] \<and> hd s1 = CHR ''-'');
          s2 = (if s1 \<noteq> [] \<and> (hd s1 = CHR ''+'' \<or> hd s1 = CHR ''-'') then tl s1 else s1);
          body = takeWhile (\<lambda>c. py_isdigit c \<or> c = CHR ''_'') s2;
          rest = dropWhile (\<lambda>c. py_isdigit c \<or> c = CHR ''_'') s2
      in if body = [] \<or> hd body = CHR ''_'' \<or> \<not> underscores_ok (CHR ''0'') body
            \<or> \<not> list_all py_isspace rest
         then Inl ValueError
         else Inr ((if neg then - 1 else 1)
                   * foldl (\<lambda>a c. 10 * a + digit_value c) 0 (filter py_isdigit body)))"

subsection \<open>numpy primitives used by the function\<close>

text \<open>
  \<^verbatim>\<open>np.array\<close> of a list of lists of strings gives a one-dimensional array of list
  objects when the inner lists differ in length, and a two-dimensional array of strings
  when the list is not empty and all inner lists have the same length. The elements and
  their order are the same in both cases; what differs is the meaning of \<^verbatim>\<open>==\<close> on a row
  and of \<^verbatim>\<open>flatten\<close>.
\<close>

definition is_table :: "fragment list \<Rightarrow> bool" where
  "is_table xs \<longleftrightarrow> xs \<noteq> [] \<and> list_all (\<lambda>f. length f = length (hd xs)) xs"

text \<open>
  The truth value of an array of booleans: the element of a one-element array, false for
  an empty array, and \<^verbatim>\<open>ValueError\<close> for two or more elements.
\<close>

fun np_bool :: "bool list \<Rightarrow> py_error + bool" where
  "np_bool [] = Inr False"
| "np_bool [b] = Inr b"
| "np_bool (b # c # bs) = Inl ValueError"

text \<open>\<^verbatim>\<open>arr.min()\<close>: an empty array raises \<^verbatim>\<open>ValueError\<close>.\<close>

definition np_min :: "nat list \<Rightarrow> py_error + nat" where
  "np_min xs = (case xs of [] \<Rightarrow> Inl ValueError | x # rest \<Rightarrow> Inr (fold min rest x))"

text \<open>\<^verbatim>\<open>arr[idx]\<close> with an array of indices \<open>\<ge> 0\<close>: one index out of range raises \<^verbatim>\<open>IndexError\<close>.\<close>

definition np_take :: "'a list \<Rightarrow> nat list \<Rightarrow> py_error + 'a list" where
  "np_take arr idx =
     (if list_all (\<lambda>i. i < length arr) idx then Inr (map (\<lambda>i. arr ! i) idx)
      else Inl IndexError)"

subsection \<open>The separator positions\<close>

text \<open>
  \<^verbatim>\<open>(val == ['']) or (val == textlist[-1])\<close> for an element \<open>val\<close> of the array. On an array
  of list objects both comparisons are list equalities. On a two-dimensional array they
  compare element by element, and \<^verbatim>\<open>or\<close> and \<^verbatim>\<open>if\<close> take the truth value of the result.
\<close>

definition is_separator :: "fragment list \<Rightarrow> fragment \<Rightarrow> py_error + bool" where
  "is_separator textlist val =
     (if is_table textlist
      then (case np_bool (map (\<lambda>c. c = []) val) of
              Inl e \<Rightarrow> Inl e
            | Inr True \<Rightarrow> Inr True
            | Inr False \<Rightarrow> np_bool (map2 (=) val (last textlist)))
      else Inr (val = [[]] \<or> val = last textlist))"

text \<open>
  \<^verbatim>\<open>idx_list = [idx for idx, val in enumerate(textlist) if ...]\<close>: the loop of the
  comprehension, with \<open>idx\<close> the position of the head of the remaining elements.
\<close>

fun idx_loop :: "fragment list \<Rightarrow> nat \<Rightarrow> fragment list \<Rightarrow> py_error + nat list" where
  "idx_loop textlist idx [] = Inr []"
| "idx_loop textlist idx (val # rest) =
     (case is_separator textlist val of
        Inl e \<Rightarrow> Inl e
      | Inr b \<Rightarrow>
          (case idx_loop textlist (Suc idx) rest of
             Inl e \<Rightarrow> Inl e
           | Inr found \<Rightarrow> Inr (if b then idx # found else found)))"

definition idx_list :: "fragment list \<Rightarrow> py_error + nat list" where
  "idx_list textlist = idx_loop textlist 0 textlist"

subsection \<open>Slices and the length gate\<close>

text \<open>\<^verbatim>\<open>[textlist[idx_list[i]:idx_list[i+1]] for i in range(len(idx_list)-1)]\<close>\<close>

definition slices_list :: "fragment list \<Rightarrow> nat list \<Rightarrow> fragment list list" where
  "slices_list textlist idxs =
     map (\<lambda>i. py_slice textlist (idxs ! i) (idxs ! (i + 1))) [0..<length idxs - 1]"

text \<open>\<^verbatim>\<open>np.where(np.logical_or(len_slices==5, len_slices==6))[0]\<close>\<close>

definition useable_data_idx :: "nat list \<Rightarrow> nat list" where
  "useable_data_idx len_slices =
     filter (\<lambda>i. len_slices ! i = 5 \<or> len_slices ! i = 6) [0..<length len_slices]"

text \<open>\<^verbatim>\<open>slices_list[useable_data_idx]\<close>, for the slices of a given list of separator positions.\<close>

definition pruned_slices_list :: "fragment list \<Rightarrow> nat list \<Rightarrow> fragment list list" where
  "pruned_slices_list textlist idxs =
     (let slices = slices_list textlist idxs
      in map (\<lambda>i. slices ! i) (useable_data_idx (map length slices)))"

subsection \<open>The two time fields of a record\<close>

text \<open>\<^verbatim>\<open>60*int(tmp[i][0]) + int(tmp[i][1])\<close>, evaluated left to right.\<close>

definition hours_minutes :: "fragment list \<Rightarrow> nat \<Rightarrow> py_error + int" where
  "hours_minutes tmp i =
     (case py_index tmp i of Inl e \<Rightarrow> Inl e | Inr f \<Rightarrow>
       (case py_index f 0 of Inl e \<Rightarrow> Inl e | Inr a \<Rightarrow>
         (case py_int a of Inl e \<Rightarrow> Inl e | Inr h \<Rightarrow>
           (case py_index f 1 of Inl e \<Rightarrow> Inl e | Inr b \<Rightarrow>
             (case py_int b of Inl e \<Rightarrow> Inl e | Inr m \<Rightarrow> Inr (60 * h + m))))))"

text \<open>\<^verbatim>\<open>int(tmp[i][0].split(' ')[0])\<close>\<close>

definition bare_minutes :: "fragment list \<Rightarrow> nat \<Rightarrow> py_error + int" where
  "bare_minutes tmp i =
     (case py_index tmp i of Inl e \<Rightarrow> Inl e | Inr f \<Rightarrow>
       (case py_index f 0 of Inl e \<Rightarrow> Inl e | Inr a \<Rightarrow>
         (case py_index (py_split (CHR '' '') a) 0 of Inl e \<Rightarrow> Inl e | Inr w \<Rightarrow> py_int w)))"

text \<open>
  The \<^verbatim>\<open>try\<close> statement around one field: \<^verbatim>\<open>except (IndexError, ValueError)\<close> runs the
  second form, whose own exceptions are not caught.
\<close>

definition minutes_at :: "fragment list \<Rightarrow> nat \<Rightarrow> py_error + int" where
  "minutes_at tmp i =
     (case hours_minutes tmp i of
        Inr v \<Rightarrow> Inr v
      | Inl IndexError \<Rightarrow> bare_minutes tmp i
      | Inl ValueError \<Rightarrow> bare_minutes tmp i)"

text \<open>
  The body of the loop \<^verbatim>\<open>for p in pruned_slices_list\<close>: with \<^verbatim>\<open>tmp = p[:5]\<close>, the
  sent-home field is read at position 1 and, after it, the admission field at position 3.
  An exception of either field leaves the function.
\<close>

definition record_times :: "fragment list \<Rightarrow> py_error + (int \<times> int)" where
  "record_times p =
     (let tmp = py_slice p 0 5
      in case minutes_at tmp 1 of
           Inl e \<Rightarrow> Inl e
         | Inr s \<Rightarrow> (case minutes_at tmp 3 of Inl e \<Rightarrow> Inl e | Inr a \<Rightarrow> Inr (s, a)))"

text \<open>The loop itself, with the two lists it appends to.\<close>

fun times_loop :: "fragment list list \<Rightarrow> int list \<Rightarrow> int list \<Rightarrow> py_error + (int list \<times> int list)" where
  "times_loop [] sent_home_times admission_times = Inr (sent_home_times, admission_times)"
| "times_loop (p # ps) sent_home_times admission_times =
     (case record_times p of
        Inl e \<Rightarrow> Inl e
      | Inr (s, a) \<Rightarrow> times_loop ps (sent_home_times @ [s]) (admission_times @ [a]))"

subsection \<open>The two columns as numpy stores them\<close>

text \<open>
  \<^verbatim>\<open>np.array\<close> of a list of Python integers chooses the type of the array from its
  elements: an integer of the signed 64-bit range counts as \<^verbatim>\<open>int64\<close>, one from \<open>2^63\<close> up
  to \<open>2^64 - 1\<close> as \<^verbatim>\<open>uint64\<close>, any other as a Python object; the array has the common
  type of its elements, and an empty list gives an empty \<^verbatim>\<open>float64\<close> array. The common
  type of \<^verbatim>\<open>int64\<close> and \<^verbatim>\<open>uint64\<close> is \<^verbatim>\<open>float64\<close>. This is numpy on a platform whose
  default integer has 64 bits; a Python object keeps the integer as it is.
\<close>

datatype dtype = Int64 | UInt64 | Float64 | Object

definition int_dtype :: "int \<Rightarrow> dtype" where
  "int_dtype v =
     (if - (2 ^ 63) \<le> v \<and> v < 2 ^ 63 then Int64
      else if 2 ^ 63 \<le> v \<and> v < 2 ^ 64 then UInt64
      else Object)"

fun promote_types :: "dtype \<Rightarrow> dtype \<Rightarrow> dtype" where
  "promote_types Object d = Object"
| "promote_types d Object = Object"
| "promote_types Float64 d = Float64"
| "promote_types d Float64 = Float64"
| "promote_types Int64 Int64 = Int64"
| "promote_types UInt64 UInt64 = UInt64"
| "promote_types Int64 UInt64 = Float64"
| "promote_types UInt64 Int64 = Float64"

definition np_array_dtype :: "int list \<Rightarrow> dtype" where
  "np_array_dtype vs =
     (case vs of
        [] \<Rightarrow> Float64
      | v # rest \<Rightarrow> fold (\<lambda>x d. promote_types d (int_dtype x)) rest (int_dtype v))"

text \<open>
  The conversion of an integer to \<^verbatim>\<open>float64\<close>: the nearest number with 53 significant
  bits, the even one of two nearest. The result is again an integer, and a cell of the
  table is represented by its numeric value in every type. The function is used below
  \<open>2^64\<close> only, far from the largest \<^verbatim>\<open>float64\<close>.
\<close>

function bit_length :: "int \<Rightarrow> nat" where
  "bit_length a = (if a \<le> 0 then 0 else Suc (bit_length (a div 2)))"
  by pat_completeness auto
termination
  by (relation "measure nat") auto

declare bit_length.simps [simp del]

definition np_float64 :: "int \<Rightarrow> int" where
  "np_float64 v =
     (let a = \<bar>v\<bar>;
          e = bit_length a - 53;
          q = a div 2 ^ e;
          r = a mod 2 ^ e;
          q' = (if 2 ^ e < 2 * r \<or> (2 * r = 2 ^ e \<and> odd q) then q + 1 else q)
      in sgn v * (q' * 2 ^ e))"

text \<open>\<^verbatim>\<open>np.array(vs)\<close>: the type and the values stored.\<close>

definition np_array :: "int list \<Rightarrow> dtype \<times> int list" where
  "np_array vs =
     (let d = np_array_dtype vs
      in (d, if d = Float64 then map np_float64 vs else vs))"

text \<open>
  The conversion of a column to the type of the common array, where only the conversion
  of an integer column to \<^verbatim>\<open>float64\<close> changes a value.
\<close>

definition astype :: "dtype \<Rightarrow> dtype \<Rightarrow> int list \<Rightarrow> int list" where
  "astype from_type to_type vs =
     (if to_type = Float64 \<and> from_type \<noteq> Float64 then map np_float64 vs else vs)"

text \<open>
  \<^verbatim>\<open>np.concatenate((np.array(sent_home_times).reshape(-1,1),
  np.array(admission_times).reshape(-1,1)), axis=1)\<close>: the type of the array and its rows.
\<close>

definition two_column_array :: "int list \<Rightarrow> int list \<Rightarrow> dtype \<times> (int \<times> int) list" where
  "two_column_array sent_home_times admission_times =
     (case np_array sent_home_times of
        (d1, c1) \<Rightarrow>
          (case np_array admission_times of
             (d2, c2) \<Rightarrow>
               (let d = promote_types d1 d2
                in (d, zip (astype d1 d c1) (astype d2 d c2)))))"

subsection \<open>The table and its labels\<close>

text \<open>
  A label is what \<^verbatim>\<open>flatten\<close> leaves in the index: a string when the anchor texts formed a
  two-dimensional array of strings, a list object when they formed an array of lists.
\<close>

datatype label = Name string | Parts fragment

text \<open>
  The data frame that \<^verbatim>\<open>pd.DataFrame\<close> builds from the array: the type of its columns,
  its rows (\<open>time_until_sent_home\<close>, \<open>time_until_admitted\<close>) in order, each cell by its
  numeric value, and its index, \<open>None\<close> for the default positions \<open>0, 1, 2, \<dots>\<close>.
\<close>

record data_frame =
  dtype :: dtype
  rows :: "(int \<times> int) list"
  index :: "label list option"

text \<open>\<^verbatim>\<open>namelist[9:-12]\<close>\<close>

definition name_window :: "'a list \<Rightarrow> 'a list" where
  "name_window namelist = py_slice namelist 9 (length namelist - 12)"

text \<open>\<^verbatim>\<open>.flatten()\<close> of the rows picked from the array of anchor texts.\<close>

definition np_flatten :: "bool \<Rightarrow> fragment list \<Rightarrow> label list" where
  "np_flatten table picked = (if table then map Name (concat picked) else map Parts picked)"

text \<open>
  The body of the \<^verbatim>\<open>try\<close> block after \<open>namelist\<close> is built: the offsets of the retained
  slices from the smallest one, the rows of \<^verbatim>\<open>namelist[9:-12]\<close> at these offsets, and the
  assignment to \<^verbatim>\<open>df.index\<close>, which raises \<^verbatim>\<open>ValueError\<close> unless there is one label per row.
\<close>

definition hospital_index :: "fragment list \<Rightarrow> nat list \<Rightarrow> nat \<Rightarrow> py_error + label list" where
  "hospital_index namelist useable nrows =
     (case np_min useable of
        Inl e \<Rightarrow> Inl e
      | Inr lo \<Rightarrow>
          (case np_take (name_window namelist) (map (\<lambda>i. i - lo) useable) of
             Inl e \<Rightarrow> Inl e
           | Inr picked \<Rightarrow>
               (let flat = np_flatten (is_table namelist) picked
                in if length flat = nrows then Inr flat else Inl ValueError)))"

subsection \<open>The function\<close>

definition import_state_info :: "fragment list \<Rightarrow> fragment list \<Rightarrow> bool \<Rightarrow> py_error + data_frame" where
  "import_state_info textlist namelist hospital_names =
     (case idx_list textlist of
        Inl e \<Rightarrow> Inl e
      | Inr idxs \<Rightarrow>
          (let slices = slices_list textlist idxs;
               len_slices = map length slices;
               useable = useable_data_idx len_slices;
               pruned = map (\<lambda>i. slices ! i) useable
           in case times_loop pruned [] [] of
                Inl e \<Rightarrow> Inl e
              | Inr (sent_home_times, admission_times) \<Rightarrow>
                  (case two_column_array sent_home_times admission_times of
                     (d, cells) \<Rightarrow>
                       (let df = \<lparr>dtype = d, rows = cells, index = None\<rparr>
                        in if hospital_names
                           then (case hospital_index namelist useable (length (rows df)) of
                                   Inl e \<Rightarrow> Inr df
                                 | Inr labels \<Rightarrow> Inr (df\<lparr>index := Some labels\<rparr>))
                           else Inr df))))"

text \<open>
  The lists that the function receives: the texts of the elements, each split at the colons.
\<close>

definition fragments_of :: "string list \<Rightarrow> fragment list" where
  "fragments_of texts = map (py_split (CHR '':'')) texts"

subsection \<open>The wording of the specification\<close>

text \<open>
  The separator positions as the specification words them: the indices where a fragment
  equals \<^verbatim>\<open>[""]\<close>, plus the final index.
\<close>

definition spec_separator_positions :: "fragment list \<Rightarrow> nat list" where
  "spec_separator_positions textlist =
     filter (\<lambda>i. textlist ! i = [[]] \<or> i = length textlist - 1) [0..<length textlist]"

text \<open>
  The first white-space-delimited token of a string, as the specification words the
  second form of a field: leading white space is skipped and the token ends at the next
  white-space character.
\<close>

definition spec_first_whitespace_token :: "string \<Rightarrow> string" where
  "spec_first_whitespace_token s = takeWhile (\<lambda>c. \<not> py_isspace c) (dropWhile py_isspace s)"

text \<open>
  The two shapes of a field that the specification names: an hours:minutes pair, a split
  into exactly two parts that are both integers, and a bare count of minutes, a text
  without a colon whose first white-space-delimited token is an integer.
\<close>

definition spec_hours_minutes_pair :: "fragment \<Rightarrow> bool" where
  "spec_hours_minutes_pair f \<longleftrightarrow>
     length f = 2 \<and> \<not> isl (py_int (f ! 0)) \<and> \<not> isl (py_int (f ! 1))"

definition spec_bare_minutes_form :: "fragment \<Rightarrow> bool" where
  "spec_bare_minutes_form f \<longleftrightarrow>
     length f = 1 \<and> \<not> isl (py_int (spec_first_whitespace_token (f ! 0)))"

text \<open>
  An anchor stream whose length fits the range of the retained indices, as the
  specification words it: the nine leading and the twelve trailing anchors that the
  function skips, and between them one anchor for each index from the smallest retained
  one to the largest.
\<close>

definition spec_anchor_stream_consistent :: "fragment list \<Rightarrow> nat list \<Rightarrow> bool" where
  "spec_anchor_stream_consistent namelist useable \<longleftrightarrow>
     useable \<noteq> [] \<and>
     length namelist = 9 + (Max (set useable) - Min (set useable) + 1) + 12"

section \<open>Auxiliary facts\<close>

subsection \<open>Splitting and indexing\<close>

lemma py_split_not_Nil: "py_split sep s \<noteq> []"
  by (induction s) (auto split: list.splits)

lemma hd_py_split: "hd (py_split sep s) = takeWhile (\<lambda>c. c \<noteq> sep) s"
  by (induction s) (auto split: list.splits simp: py_split_not_Nil)

lemma py_index_split_0: "py_index (py_split sep s) 0 = Inr (takeWhile (\<lambda>c. c \<noteq> sep) s)"
  using py_split_not_Nil [of sep s] hd_py_split [of sep s]
  by (cases "py_split sep s") (auto simp: py_index_def)

lemma fragments_of_nonempty: "[] \<notin> set (fragments_of texts)"
  unfolding fragments_of_def
  by (induction texts) (simp_all add: py_split_not_Nil [symmetric])

lemma nth_filter_upt: "map (\<lambda>i. xs ! i) (filter (\<lambda>i. Q (xs ! i)) [0..<length xs]) = filter Q xs"
proof -
  have "filter Q xs = filter Q (map (\<lambda>i. xs ! i) [0..<length xs])"
    by (simp add: map_nth)
  also have "\<dots> = map (\<lambda>i. xs ! i) (filter (\<lambda>i. Q (xs ! i)) [0..<length xs])"
    by (simp add: filter_map comp_def)
  finally show ?thesis by simp
qed

lemma pruned_is_filter:
  "pruned_slices_list textlist idxs =
     filter (\<lambda>s. length s = 5 \<or> length s = 6) (slices_list textlist idxs)"
proof -
  let ?sl = "slices_list textlist idxs"
  have "filter (\<lambda>i. map length ?sl ! i = 5 \<or> map length ?sl ! i = 6) [0..<length ?sl]
        = filter (\<lambda>i. length (?sl ! i) = 5 \<or> length (?sl ! i) = 6) [0..<length ?sl]"
    by (rule filter_cong) auto
  then show ?thesis
    using nth_filter_upt [of ?sl "\<lambda>s. length s = 5 \<or> length s = 6"]
    by (simp add: pruned_slices_list_def useable_data_idx_def Let_def)
qed

lemma length_useable:
  "length (useable_data_idx (map length (slices_list textlist idxs)))
     = length (pruned_slices_list textlist idxs)"
  by (simp add: pruned_slices_list_def Let_def)

lemma times_loop_Inr:
  "times_loop ps sh ad = Inr (sh', ad') \<Longrightarrow>
     \<exists>rs. list_all2 (\<lambda>p r. record_times p = Inr r) ps rs
          \<and> sh' = sh @ map fst rs \<and> ad' = ad @ map snd rs"
proof (induction ps arbitrary: sh ad)
  case Nil
  then show ?case by simp
next
  case (Cons p ps)
  from Cons.prems obtain s a where r: "record_times p = Inr (s, a)"
    and rest: "times_loop ps (sh @ [s]) (ad @ [a]) = Inr (sh', ad')"
    by (auto split: sum.splits prod.splits)
  from Cons.IH [OF rest] obtain rs where
    "list_all2 (\<lambda>p r. record_times p = Inr r) ps rs"
    "sh' = (sh @ [s]) @ map fst rs" "ad' = (ad @ [a]) @ map snd rs"
    by blast
  with r have "list_all2 (\<lambda>p r. record_times p = Inr r) (p # ps) ((s, a) # rs)
      \<and> sh' = sh @ map fst ((s, a) # rs) \<and> ad' = ad @ map snd ((s, a) # rs)"
    by simp
  then show ?case by blast
qed

lemma times_loop_Inl:
  "p \<in> set ps \<Longrightarrow> isl (record_times p) \<Longrightarrow> isl (times_loop ps sh ad)"
proof (induction ps arbitrary: sh ad)
  case Nil
  then show ?case by simp
next
  case (Cons q ps)
  show ?case
  proof (cases "record_times q")
    case (Inl e)
    then show ?thesis by simp
  next
    case (Inr r)
    with Cons.prems have "p \<in> set ps" by auto
    from Cons.IH [OF this Cons.prems(2)] Inr show ?thesis
      by (simp split: prod.splits)
  qed
qed

lemma zip_map_fst_snd: "zip (map fst rs) (map snd rs) = rs"
  by (induction rs) auto

lemma import_table:
  assumes "import_state_info textlist namelist hospital_names = Inr df"
    and "idx_list textlist = Inr idxs"
  shows "\<exists>ts. list_all2 (\<lambda>p t. record_times p = Inr t) (pruned_slices_list textlist idxs) ts
           \<and> two_column_array (map fst ts) (map snd ts) = (dtype df, rows df)"
proof -
  let ?pr = "pruned_slices_list textlist idxs"
  from assms obtain sh ad d cells where t: "times_loop ?pr [] [] = Inr (sh, ad)"
    and c: "two_column_array sh ad = (d, cells)" and r: "dtype df = d" "rows df = cells"
    by (auto simp: import_state_info_def pruned_slices_list_def Let_def
             split: sum.splits prod.splits if_splits)
  from times_loop_Inr [OF t] obtain ts where
    "list_all2 (\<lambda>p t. record_times p = Inr t) ?pr ts" "sh = map fst ts" "ad = map snd ts"
    by auto
  with c r show ?thesis by auto
qed

subsection \<open>The stored columns\<close>

lemma bit_length_bound: "a < 2 ^ n \<Longrightarrow> bit_length a \<le> n"
proof (induction n arbitrary: a)
  case 0
  then have "a \<le> 0" by simp
  then show ?case by (subst bit_length.simps) simp
next
  case (Suc n)
  show ?case
  proof (cases "a \<le> 0")
    case True
    then show ?thesis by (subst bit_length.simps) simp
  next
    case False
    from Suc.prems have "a div 2 < 2 ^ n" by simp
    then have "bit_length (a div 2) \<le> n" by (rule Suc.IH)
    with False show ?thesis by (subst bit_length.simps) simp
  qed
qed

lemma np_float64_small:
  assumes "\<bar>v\<bar> < 2 ^ 53"
  shows "np_float64 v = v"
proof -
  from assms have "bit_length \<bar>v\<bar> \<le> 53" by (rule bit_length_bound)
  then have "bit_length \<bar>v\<bar> - 53 = 0" by simp
  then have "np_float64 v = sgn v * \<bar>v\<bar>" by (simp add: np_float64_def Let_def)
  then show ?thesis by (simp add: mult_sgn_abs)
qed

lemma np_float64_nonneg:
  assumes "0 \<le> v"
  shows "0 \<le> np_float64 v"
proof -
  let ?e = "bit_length \<bar>v\<bar> - 53"
  have "0 \<le> \<bar>v\<bar> div 2 ^ ?e" by (simp add: pos_imp_zdiv_nonneg_iff)
  then have "0 \<le> (if 2 ^ ?e < 2 * (\<bar>v\<bar> mod 2 ^ ?e)
                          \<or> (2 * (\<bar>v\<bar> mod 2 ^ ?e) = 2 ^ ?e \<and> odd (\<bar>v\<bar> div 2 ^ ?e))
                   then \<bar>v\<bar> div 2 ^ ?e + 1 else \<bar>v\<bar> div 2 ^ ?e) * (2::int) ^ ?e"
    by simp
  with assms show ?thesis
    unfolding np_float64_def Let_def by (simp add: sgn_if)
qed

lemma stored_cell_exact:
  "c = v \<or> c = np_float64 v \<Longrightarrow> \<bar>v\<bar> < 2 ^ 53 \<Longrightarrow> c = v"
  by (auto simp: np_float64_small)

lemma promote_types_Int64: "promote_types d1 d2 = Int64 \<Longrightarrow> d1 = Int64 \<and> d2 = Int64"
  by (cases d1; cases d2) simp_all

lemma promote_types_UInt64: "promote_types d1 d2 = UInt64 \<Longrightarrow> d1 = UInt64 \<and> d2 = UInt64"
  by (cases d1; cases d2) simp_all

lemma stored_column_length: "length (astype (fst (np_array vs)) d (snd (np_array vs))) = length vs"
  by (simp add: astype_def np_array_def Let_def)

lemma stored_column_cell:
  assumes "k < length vs"
  shows "astype (fst (np_array vs)) d (snd (np_array vs)) ! k = vs ! k
       \<or> astype (fst (np_array vs)) d (snd (np_array vs)) ! k = np_float64 (vs ! k)"
  using assms by (simp add: astype_def np_array_def Let_def)

lemma stored_column_exact:
  assumes "fst (np_array vs) = d" and "d = Int64 \<or> d = UInt64"
  shows "astype (fst (np_array vs)) d (snd (np_array vs)) = vs"
  using assms by (auto simp: astype_def np_array_def Let_def)

lemma two_column_array_cells:
  assumes "two_column_array sh ad = (d, cells)" and "length sh = length ad"
  shows "length cells = length sh"
    and "k < length sh \<Longrightarrow>
           (fst (cells ! k) = sh ! k \<or> fst (cells ! k) = np_float64 (sh ! k))
         \<and> (snd (cells ! k) = ad ! k \<or> snd (cells ! k) = np_float64 (ad ! k))"
    and "d = Int64 \<or> d = UInt64 \<Longrightarrow> cells = zip sh ad"
proof -
  let ?d1 = "fst (np_array sh)" and ?d2 = "fst (np_array ad)"
  let ?c1 = "astype ?d1 d (snd (np_array sh))" and ?c2 = "astype ?d2 d (snd (np_array ad))"
  from assms(1) have d: "d = promote_types ?d1 ?d2" and c: "cells = zip ?c1 ?c2"
    by (auto simp: two_column_array_def Let_def split: prod.splits)
  from c assms(2) show "length cells = length sh"
    by (simp add: stored_column_length)
  show "(fst (cells ! k) = sh ! k \<or> fst (cells ! k) = np_float64 (sh ! k))
      \<and> (snd (cells ! k) = ad ! k \<or> snd (cells ! k) = np_float64 (ad ! k))"
    if k: "k < length sh"
  proof -
    from k assms(2) have "cells ! k = (?c1 ! k, ?c2 ! k)"
      unfolding c by (simp add: stored_column_length)
    moreover from k have "?c1 ! k = sh ! k \<or> ?c1 ! k = np_float64 (sh ! k)"
      by (rule stored_column_cell)
    moreover from k assms(2) have "?c2 ! k = ad ! k \<or> ?c2 ! k = np_float64 (ad ! k)"
      by (simp add: stored_column_cell)
    ultimately show ?thesis by simp
  qed
  show "cells = zip sh ad" if i: "d = Int64 \<or> d = UInt64"
  proof -
    from i d have "?d1 = d \<and> ?d2 = d"
      using promote_types_Int64 [of ?d1 ?d2] promote_types_UInt64 [of ?d1 ?d2] by auto
    then have e1: "?d1 = d" and e2: "?d2 = d" by simp_all
    from e1 i have "?c1 = sh" by (rule stored_column_exact)
    moreover from e2 i have "?c2 = ad" by (rule stored_column_exact)
    ultimately show ?thesis using c by simp
  qed
qed

lemma rows_length:
  assumes "import_state_info textlist namelist hospital_names = Inr df"
    and "idx_list textlist = Inr idxs"
  shows "length (rows df) = length (pruned_slices_list textlist idxs)"
proof -
  from import_table [OF assms] obtain ts where
    a: "list_all2 (\<lambda>p t. record_times p = Inr t) (pruned_slices_list textlist idxs) ts"
    and c: "two_column_array (map fst ts) (map snd ts) = (dtype df, rows df)" by blast
  from two_column_array_cells(1) [OF c] have "length (rows df) = length ts" by simp
  with a show ?thesis by (simp add: list_all2_lengthD)
qed

subsection \<open>The separator test and the two forms of a field\<close>

lemma is_separator_value:
  assumes "[] \<notin> set textlist" and "val \<in> set textlist"
    and "is_separator textlist val = Inr b"
  shows "b \<longleftrightarrow> val = [[]] \<or> val = last textlist"
proof (cases "is_table textlist")
  case False
  with assms(3) show ?thesis by (simp add: is_separator_def)
next
  case True
  from assms(2) have "textlist \<noteq> []" by auto
  then have l: "last textlist \<in> set textlist" by simp
  have all: "\<forall>f\<in>set textlist. length f = length (hd textlist)"
    using True unfolding is_table_def list_all_iff by blast
  have len: "length (last textlist) = length val"
    using all l assms(2) by metis
  from assms(1,2) obtain c cs where v: "val = c # cs" by (cases val) auto
  show ?thesis
  proof (cases cs)
    case (Cons d ds)
    have "is_separator textlist (c # d # ds) = Inl ValueError"
      using True by (simp add: is_separator_def)
    with v Cons assms(3) show ?thesis by simp
  next
    case Nil
    with v len obtain d where d: "last textlist = [d]"
      by (cases "last textlist") auto
    show ?thesis
    proof (cases "c = []")
      case c: True
      have "is_separator textlist [c] = Inr True"
        using True c by (simp add: is_separator_def)
      with v Nil c assms(3) show ?thesis by simp
    next
      case c: False
      have "is_separator textlist [c] = Inr (c = d)"
        using True c d by (simp add: is_separator_def)
      with v Nil c d assms(3) show ?thesis by simp
    qed
  qed
qed

lemma idx_loop_positions:
  assumes "idx_loop textlist n xs = Inr found"
    and "\<And>v b. v \<in> set xs \<Longrightarrow> is_separator textlist v = Inr b \<Longrightarrow> b = P v"
  shows "found = filter (\<lambda>i. P (xs ! (i - n))) [n..<n + length xs]"
  using assms
proof (induction xs arbitrary: n found)
  case Nil
  then show ?case by simp
next
  case (Cons v rest)
  from Cons.prems(1) obtain b found' where
    b: "is_separator textlist v = Inr b"
    and r: "idx_loop textlist (Suc n) rest = Inr found'"
    and f: "found = (if b then n # found' else found')"
    by (auto split: sum.splits)
  have bP: "b = P v" using Cons.prems(2) [of v b] b by simp
  have "found' = filter (\<lambda>i. P (rest ! (i - Suc n))) [Suc n..<Suc n + length rest]"
    using Cons.IH [OF r] Cons.prems(2) by simp
  also have "\<dots> = filter (\<lambda>i. P ((v # rest) ! (i - n))) [Suc n..<Suc n + length rest]"
    by (rule filter_cong) (auto simp: nth_Cons')
  finally have f': "found' = filter (\<lambda>i. P ((v # rest) ! (i - n))) [Suc n..<Suc n + length rest]" .
  have "[n..<n + length (v # rest)] = n # [Suc n..<Suc n + length rest]"
    by (subst upt_rec) simp
  with f f' bP show ?case by simp
qed

lemma idx_list_positions:
  assumes "[] \<notin> set textlist" and "idx_list textlist = Inr idxs"
  shows "idxs = filter (\<lambda>i. textlist ! i = [[]] \<or> textlist ! i = last textlist) [0..<length textlist]"
  using idx_loop_positions [of textlist 0 textlist idxs "\<lambda>v. v = [[]] \<or> v = last textlist"]
    is_separator_value [OF assms(1)] assms(2)
  by (simp add: idx_list_def)

lemma pruned_length:
  "p \<in> set (pruned_slices_list textlist idxs) \<Longrightarrow> length p = 5 \<or> length p = 6"
  by (simp add: pruned_is_filter)

lemma record_field_index:
  assumes "length p = 5 \<or> length p = 6" and "i = 1 \<or> i = 3"
  shows "py_index (py_slice p 0 5) i = Inr (p ! i)"
  using assms by (auto simp: py_index_def py_slice_def)

lemma record_times_fields:
  assumes "record_times p = Inr r"
  shows "minutes_at (py_slice p 0 5) 1 = Inr (fst r) \<and> minutes_at (py_slice p 0 5) 3 = Inr (snd r)"
  using assms by (auto simp: record_times_def Let_def split: sum.splits)

lemma validated_row:
  assumes "import_state_info textlist namelist hospital_names = Inr df"
    and "idx_list textlist = Inr idxs"
    and "k < length (rows df)"
  shows "k < length (pruned_slices_list textlist idxs)
       \<and> (length (pruned_slices_list textlist idxs ! k) = 5
            \<or> length (pruned_slices_list textlist idxs ! k) = 6)
       \<and> (\<exists>t. record_times (pruned_slices_list textlist idxs ! k) = Inr t
            \<and> (fst (rows df ! k) = fst t \<or> fst (rows df ! k) = np_float64 (fst t))
            \<and> (snd (rows df ! k) = snd t \<or> snd (rows df ! k) = np_float64 (snd t))
            \<and> (dtype df = Int64 \<or> dtype df = UInt64 \<longrightarrow> rows df ! k = t))"
proof -
  let ?pr = "pruned_slices_list textlist idxs"
  from import_table [OF assms(1,2)] obtain ts where
    all: "list_all2 (\<lambda>p t. record_times p = Inr t) ?pr ts"
    and c: "two_column_array (map fst ts) (map snd ts) = (dtype df, rows df)" by blast
  have l: "length (map fst ts) = length (map snd ts)" by simp
  from two_column_array_cells(1) [OF c l] have lr: "length (rows df) = length ts" by simp
  from all have len: "length ?pr = length ts" by (rule list_all2_lengthD)
  with lr assms(3) have k: "k < length ?pr" and kt: "k < length ts" by simp_all
  then have "?pr ! k \<in> set ?pr" by simp
  then have five: "length (?pr ! k) = 5 \<or> length (?pr ! k) = 6" by (rule pruned_length)
  from all k have r: "record_times (?pr ! k) = Inr (ts ! k)" by (rule list_all2_nthD)
  from kt have "k < length (map fst ts)" by simp
  from two_column_array_cells(2) [OF c l this] kt
  have cell: "(fst (rows df ! k) = fst (ts ! k) \<or> fst (rows df ! k) = np_float64 (fst (ts ! k)))
      \<and> (snd (rows df ! k) = snd (ts ! k) \<or> snd (rows df ! k) = np_float64 (snd (ts ! k)))"
    by simp
  have "rows df ! k = ts ! k" if "dtype df = Int64 \<or> dtype df = UInt64"
  proof -
    from two_column_array_cells(3) [OF c l that] have "rows df = ts"
      by (simp add: zip_map_fst_snd)
    then show ?thesis by simp
  qed
  with k five r cell show ?thesis by blast
qed

lemma hours_minutes_first_two:
  assumes "py_index tmp i = Inr (a # b # others)" and "py_int a = Inr h" and "py_int b = Inr m"
  shows "minutes_at tmp i = Inr (60 * h + m)"
  using assms by (simp add: minutes_at_def hours_minutes_def py_index_def)

lemma minutes_at_fallback:
  assumes "isl (hours_minutes tmp i)"
  shows "minutes_at tmp i = bare_minutes tmp i"
proof (cases "hours_minutes tmp i")
  case (Inl e)
  then show ?thesis by (cases e) (simp_all add: minutes_at_def)
next
  case (Inr v)
  with assms show ?thesis by simp
qed

lemma py_index_Nil: "py_index [] i = Inl IndexError"
  by (simp add: py_index_def)

lemma py_index_Cons_0: "py_index (x # xs) 0 = Inr x"
  by (simp add: py_index_def)

lemma bare_minutes_token:
  assumes "py_index tmp i = Inr f"
  shows "bare_minutes tmp i =
           (case f of [] \<Rightarrow> Inl IndexError
                    | s # others \<Rightarrow> py_int (takeWhile (\<lambda>c. c \<noteq> CHR '' '') s))"
  using assms
  by (cases f) (simp_all add: bare_minutes_def py_index_Nil py_index_Cons_0 py_index_split_0)

lemma hours_minutes_isl:
  assumes "py_index tmp i = Inr f"
  shows "isl (hours_minutes tmp i)
           \<longleftrightarrow> length f < 2 \<or> isl (py_int (f ! 0)) \<or> isl (py_int (f ! 1))"
proof (cases f)
  case Nil
  with assms show ?thesis by (simp add: hours_minutes_def py_index_def)
next
  case (Cons a g)
  note f = Cons
  show ?thesis
  proof (cases g)
    case Nil
    with f assms show ?thesis
      by (simp add: hours_minutes_def py_index_def split: sum.splits)
  next
    case (Cons b others)
    with f assms show ?thesis
      by (simp add: hours_minutes_def py_index_def split: sum.splits)
  qed
qed

lemma bare_minutes_isl:
  assumes "py_index tmp i = Inr f"
  shows "isl (bare_minutes tmp i)
           \<longleftrightarrow> f = [] \<or> isl (py_int (takeWhile (\<lambda>c. c \<noteq> CHR '' '') (hd f)))"
  using bare_minutes_token [OF assms]
  by (cases f) simp_all

lemma minutes_at_isl:
  assumes "py_index tmp i = Inr f"
    and "length f < 2 \<or> isl (py_int (f ! 0)) \<or> isl (py_int (f ! 1))"
    and "f = [] \<or> isl (py_int (takeWhile (\<lambda>c. c \<noteq> CHR '' '') (hd f)))"
  shows "isl (minutes_at tmp i)"
proof -
  from assms(2) have "isl (hours_minutes tmp i)"
    by (simp only: hours_minutes_isl [OF assms(1)])
  then have "minutes_at tmp i = bare_minutes tmp i" by (rule minutes_at_fallback)
  moreover from assms(3) have "isl (bare_minutes tmp i)"
    by (simp only: bare_minutes_isl [OF assms(1)])
  ultimately show ?thesis by simp
qed

lemma record_times_isl:
  assumes "isl (minutes_at (py_slice p 0 5) 1) \<or> isl (minutes_at (py_slice p 0 5) 3)"
  shows "isl (record_times p)"
  using assms by (auto simp: record_times_def Let_def split: sum.splits)

lemma import_isl:
  assumes "idx_list textlist = Inr idxs"
    and "p \<in> set (pruned_slices_list textlist idxs)" and "isl (record_times p)"
  shows "isl (import_state_info textlist namelist hospital_names)"
proof -
  from times_loop_Inl [OF assms(2,3)]
  have "isl (times_loop (pruned_slices_list textlist idxs) [] [])" .
  then obtain e where "times_loop (pruned_slices_list textlist idxs) [] [] = Inl e"
    by (cases "times_loop (pruned_slices_list textlist idxs) [] []") simp_all
  with assms(1) show ?thesis
    by (simp add: import_state_info_def pruned_slices_list_def Let_def)
qed

subsection \<open>Signs\<close>

lemma digit_value_nonneg: "py_isdigit c \<Longrightarrow> 0 \<le> digit_value c"
  by (simp add: py_isdigit_def digit_value_def)

lemma digits_fold_nonneg:
  "0 \<le> a \<Longrightarrow> list_all py_isdigit ds \<Longrightarrow> 0 \<le> foldl (\<lambda>a c. 10 * a + digit_value c) a ds"
proof (induction ds arbitrary: a)
  case Nil
  then show ?case by simp
next
  case (Cons d ds)
  from Cons.prems have "0 \<le> 10 * a + digit_value d"
    using digit_value_nonneg [of d] by simp
  with Cons.IH [of "10 * a + digit_value d"] Cons.prems show ?case by simp
qed

lemma if_Inr_value: "(if bad then Inl e else Inr x) = Inr v \<Longrightarrow> x = v"
  by (cases bad) simp_all

lemma py_int_nonneg:
  assumes "py_int s = Inr v" and "CHR ''-'' \<notin> set s"
  shows "0 \<le> v"
proof -
  let ?s1 = "dropWhile py_isspace s"
  have "hd ?s1 \<noteq> CHR ''-''" if "?s1 \<noteq> []"
  proof -
    from that have "hd ?s1 \<in> set ?s1" by simp
    then have "hd ?s1 \<in> set s" by (rule set_dropWhileD)
    with assms(2) show ?thesis by auto
  qed
  then have neg: "(?s1 \<noteq> [] \<and> hd ?s1 = CHR ''-'') = False" by blast
  note val_eq = assms(1) [unfolded py_int_def Let_def neg if_False, THEN if_Inr_value]
  have digits: "0 \<le> foldl (\<lambda>a c. 10 * a + digit_value c) 0 (filter py_isdigit body)" for body
    by (rule digits_fold_nonneg) (simp_all add: list_all_iff)
  show ?thesis
    by (subst val_eq [symmetric]) (simp add: digits)
qed

lemma hours_minutes_Inr:
  assumes "py_index tmp i = Inr f" and "hours_minutes tmp i = Inr w"
  shows "\<exists>a b others h m. f = a # b # others \<and> py_int a = Inr h \<and> py_int b = Inr m
           \<and> w = 60 * h + m"
proof (cases f)
  case Nil
  with assms show ?thesis by (simp add: hours_minutes_def py_index_Nil)
next
  case (Cons a g)
  note f = Cons
  show ?thesis
  proof (cases g)
    case Nil
    with f assms show ?thesis
      by (simp add: hours_minutes_def py_index_def split: sum.splits)
  next
    case (Cons b others)
    with f assms show ?thesis
      by (simp add: hours_minutes_def py_index_def split: sum.splits)
  qed
qed

lemma minutes_at_nonneg:
  assumes "py_index tmp i = Inr f" and "\<forall>s\<in>set f. CHR ''-'' \<notin> set s"
    and "minutes_at tmp i = Inr v"
  shows "0 \<le> v"
proof (cases "hours_minutes tmp i")
  case (Inr w)
  with assms(3) have "w = v" by (simp add: minutes_at_def)
  with hours_minutes_Inr [OF assms(1) Inr] obtain a b others h m where
    f: "f = a # b # others" and a: "py_int a = Inr h" and b: "py_int b = Inr m"
    and v: "v = 60 * h + m" by blast
  from f assms(2) have "CHR ''-'' \<notin> set a" "CHR ''-'' \<notin> set b" by simp_all
  with a b have "0 \<le> h" "0 \<le> m" by (auto intro: py_int_nonneg)
  with v show ?thesis by simp
next
  case (Inl e)
  then have "isl (hours_minutes tmp i)" by simp
  with assms(3) have bm: "bare_minutes tmp i = Inr v" by (simp add: minutes_at_fallback)
  with bare_minutes_token [OF assms(1)] obtain s others where
    f: "f = s # others" and t: "py_int (takeWhile (\<lambda>c. c \<noteq> CHR '' '') s) = Inr v"
    by (cases f) simp_all
  from f assms(2) have "CHR ''-'' \<notin> set s" by simp
  then have "CHR ''-'' \<notin> set (takeWhile (\<lambda>c. c \<noteq> CHR '' '') s)"
    by (auto dest: set_takeWhileD)
  with t show ?thesis by (rule py_int_nonneg)
qed

subsection \<open>Labels\<close>

lemma np_min_Min: "xs \<noteq> [] \<Longrightarrow> np_min xs = Inr (Min (set xs))"
proof (cases xs)
  case Nil
  assume "xs \<noteq> []"
  with Nil show ?thesis by simp
next
  case (Cons x rest)
  have "Min (set (x # rest)) = fold min rest x" by (rule Min.set_eq_fold)
  with Cons show ?thesis by (simp add: np_min_def)
qed

lemma length_concat_uniform:
  "\<forall>x\<in>set xs. length x = k \<Longrightarrow> length (concat xs) = k * length xs"
  by (induction xs) simp_all

lemma name_window_subset: "set (name_window namelist) \<subseteq> set namelist"
proof
  fix x
  assume "x \<in> set (name_window namelist)"
  then have "x \<in> set (take (length namelist - 12) namelist)"
    unfolding name_window_def py_slice_def by (rule in_set_dropD)
  then show "x \<in> set namelist" by (rule in_set_takeD)
qed

lemma hospital_index_no_rows: "hospital_index namelist [] nrows = Inl ValueError"
  by (simp add: hospital_index_def np_min_def)

lemma hospital_index_short:
  assumes "i \<in> set useable" and "length (name_window namelist) \<le> i - Min (set useable)"
  shows "hospital_index namelist useable nrows = Inl IndexError"
proof -
  from assms(1) have ne: "useable \<noteq> []" by auto
  let ?offs = "map (\<lambda>i. i - Min (set useable)) useable"
  from assms(2) have "\<not> i - Min (set useable) < length (name_window namelist)"
    by simp
  with assms(1) have "\<not> list_all (\<lambda>j. j < length (name_window namelist)) ?offs"
    unfolding list_all_iff set_map by blast
  then have "np_take (name_window namelist) ?offs = Inl IndexError"
    by (simp add: np_take_def)
  with ne show ?thesis by (simp add: hospital_index_def np_min_Min)
qed

lemma hospital_index_shape:
  assumes "is_table namelist" and "length (hd namelist) \<noteq> 1" and "useable \<noteq> []"
  shows "isl (hospital_index namelist useable (length useable))"
proof -
  let ?offs = "map (\<lambda>i. i - Min (set useable)) useable"
  let ?w = "name_window namelist"
  show ?thesis
  proof (cases "np_take ?w ?offs")
    case (Inl e)
    with assms(3) show ?thesis by (simp add: hospital_index_def np_min_Min)
  next
    case (Inr picked)
    then have "list_all (\<lambda>j. j < length ?w) ?offs" and p: "picked = map (\<lambda>j. ?w ! j) ?offs"
      by (auto simp: np_take_def split: if_splits)
    then have ok: "\<forall>j\<in>set ?offs. j < length ?w"
      unfolding list_all_iff by blast
    have all: "\<forall>f\<in>set namelist. length f = length (hd namelist)"
      using assms(1) unfolding is_table_def list_all_iff by blast
    have "\<forall>x\<in>set picked. length x = length (hd namelist)"
    proof
      fix x
      assume "x \<in> set picked"
      with p obtain j where j: "j \<in> set ?offs" and x: "x = ?w ! j" by auto
      from ok j have "j < length ?w" by blast
      with x have "x \<in> set ?w" by simp
      then have "x \<in> set namelist" by (rule subsetD [OF name_window_subset])
      with all show "length x = length (hd namelist)" by (rule bspec)
    qed
    then have "length (concat picked) = length (hd namelist) * length picked"
      by (rule length_concat_uniform)
    moreover from p have "length picked = length useable" by simp
    moreover from assms(3) have "0 < length useable" by simp
    ultimately have "length (concat picked) \<noteq> length useable"
      using assms(2) by simp
    then have "length (np_flatten (is_table namelist) picked) \<noteq> length useable"
      using assms(1) by (simp add: np_flatten_def)
    with Inr assms(3) show ?thesis
      by (simp add: hospital_index_def np_min_Min Let_def)
  qed
qed

lemma import_unlabelled_index:
  "import_state_info textlist namelist False = Inr df \<Longrightarrow> index df = None"
  by (auto simp: import_state_info_def Let_def split: sum.splits prod.splits)

lemma import_labelled:
  assumes "import_state_info textlist namelist False = Inr df"
    and "idx_list textlist = Inr idxs"
  shows "import_state_info textlist namelist True =
           (case hospital_index namelist
                   (useable_data_idx (map length (slices_list textlist idxs))) (length (rows df)) of
              Inl e \<Rightarrow> Inr df
            | Inr labels \<Rightarrow> Inr (df\<lparr>index := Some labels\<rparr>))"
  using assms
  by (auto simp: import_state_info_def Let_def split: sum.splits prod.splits)

lemma rows_length_useable:
  assumes "import_state_info textlist namelist hospital_names = Inr df"
    and "idx_list textlist = Inr idxs"
  shows "length (rows df) = length (useable_data_idx (map length (slices_list textlist idxs)))"
  using rows_length [OF assms] by (simp add: length_useable)

lemma hospital_index_labels:
  assumes "useable \<noteq> []"
    and "\<forall>i\<in>set useable. i - Min (set useable) < length (name_window namelist)"
    and "is_table namelist \<longrightarrow> length (hd namelist) = 1"
  shows "\<exists>labels. hospital_index namelist useable (length useable) = Inr labels"
proof -
  let ?offs = "map (\<lambda>i. i - Min (set useable)) useable"
  let ?w = "name_window namelist"
  let ?picked = "map (\<lambda>j. ?w ! j) ?offs"
  from assms(2) have ok: "list_all (\<lambda>j. j < length ?w) ?offs"
    unfolding list_all_iff set_map by blast
  then have take: "np_take ?w ?offs = Inr ?picked" by (simp add: np_take_def)
  have "length (np_flatten (is_table namelist) ?picked) = length useable"
  proof (cases "is_table namelist")
    case False
    then show ?thesis by (simp add: np_flatten_def)
  next
    case True
    have all: "\<forall>f\<in>set namelist. length f = length (hd namelist)"
      using True unfolding is_table_def list_all_iff by blast
    from ok have inw: "\<forall>j\<in>set ?offs. j < length ?w"
      unfolding list_all_iff by blast
    have "\<forall>x\<in>set ?picked. length x = 1"
    proof
      fix x
      assume "x \<in> set ?picked"
      then obtain j where j: "j \<in> set ?offs" and x: "x = ?w ! j" by auto
      from inw j have "j < length ?w" by blast
      with x have "x \<in> set ?w" by simp
      then have "x \<in> set namelist" by (rule subsetD [OF name_window_subset])
      with all have "length x = length (hd namelist)" by (rule bspec)
      with True assms(3) show "length x = 1" by simp
    qed
    then have "length (concat ?picked) = 1 * length ?picked"
      by (rule length_concat_uniform)
    with True show ?thesis by (simp add: np_flatten_def)
  qed
  with take assms(1) show ?thesis
    by (simp add: hospital_index_def np_min_Min Let_def)
qed

text \<open>
  For comparison, a page with 22 anchors, the tenth being the name of the hospital: the
  label is attached.
\<close>

lemma labels_attached_example:
  "import_state_info (fragments_of ['''', ''2:30'', ''to'', ''45 min'', ''x'', ''''])
      (fragments_of
        [''Home'', ''News'', ''Data'', ''Graphics'', ''States'', ''Methods'',
         ''About'', ''Donate'', ''Search'', ''Mercy Hospital'', ''Contact'', ''Jobs'',
         ''Staff'', ''Privacy'', ''Terms'', ''Feeds'', ''Archive'', ''Events'',
         ''Store'', ''Press'', ''Support'', ''Top'']) True
     = Inr \<lparr>dtype = Int64, rows = [(150, 45)], index = Some [Name ''Mercy Hospital'']\<rparr>"
  by code_simp

subsection \<open>The fields of a validated record\<close>

lemma stored_cell:
  assumes "c = v \<or> c = np_float64 v" and "d = Int64 \<or> d = UInt64 \<Longrightarrow> c = v"
  shows "(c = v \<or> c = np_float64 v)
       \<and> (d = Int64 \<or> d = UInt64 \<or> \<bar>v\<bar> < 2 ^ 53 \<longrightarrow> c = v)"
  using assms stored_cell_exact [of c v] by blast

lemma validated_fields:
  assumes "import_state_info textlist namelist hospital_names = Inr df"
    and "idx_list textlist = Inr idxs"
    and "k < length (rows df)"
    and "p = pruned_slices_list textlist idxs ! k"
  obtains s a where
    "minutes_at (py_slice p 0 5) 1 = Inr s" and "minutes_at (py_slice p 0 5) 3 = Inr a"
    and "py_index (py_slice p 0 5) 1 = Inr (p ! 1)" and "py_index (py_slice p 0 5) 3 = Inr (p ! 3)"
    and "(fst (rows df ! k) = s \<or> fst (rows df ! k) = np_float64 s)
         \<and> (dtype df = Int64 \<or> dtype df = UInt64 \<or> \<bar>s\<bar> < 2 ^ 53 \<longrightarrow> fst (rows df ! k) = s)"
    and "(snd (rows df ! k) = a \<or> snd (rows df ! k) = np_float64 a)
         \<and> (dtype df = Int64 \<or> dtype df = UInt64 \<or> \<bar>a\<bar> < 2 ^ 53 \<longrightarrow> snd (rows df ! k) = a)"
proof -
  from validated_row [OF assms(1-3)] assms(4) obtain t where
    len: "length p = 5 \<or> length p = 6" and r: "record_times p = Inr t"
    and c1: "fst (rows df ! k) = fst t \<or> fst (rows df ! k) = np_float64 (fst t)"
    and c2: "snd (rows df ! k) = snd t \<or> snd (rows df ! k) = np_float64 (snd t)"
    and ex: "dtype df = Int64 \<or> dtype df = UInt64 \<longrightarrow> rows df ! k = t"
    by blast
  from record_times_fields [OF r]
  have f1: "minutes_at (py_slice p 0 5) 1 = Inr (fst t)"
    and f3: "minutes_at (py_slice p 0 5) 3 = Inr (snd t)" by simp_all
  have i1: "py_index (py_slice p 0 5) 1 = Inr (p ! 1)"
    and i3: "py_index (py_slice p 0 5) 3 = Inr (p ! 3)"
    using len by (simp_all add: record_field_index)
  from ex have e1: "dtype df = Int64 \<or> dtype df = UInt64 \<Longrightarrow> fst (rows df ! k) = fst t"
    and e3: "dtype df = Int64 \<or> dtype df = UInt64 \<Longrightarrow> snd (rows df ! k) = snd t"
    by simp_all
  from c1 e1 have s1: "(fst (rows df ! k) = fst t \<or> fst (rows df ! k) = np_float64 (fst t))
      \<and> (dtype df = Int64 \<or> dtype df = UInt64 \<or> \<bar>fst t\<bar> < 2 ^ 53
           \<longrightarrow> fst (rows df ! k) = fst t)"
    by (rule stored_cell)
  from c2 e3 have s3: "(snd (rows df ! k) = snd t \<or> snd (rows df ! k) = np_float64 (snd t))
      \<and> (dtype df = Int64 \<or> dtype df = UInt64 \<or> \<bar>snd t\<bar> < 2 ^ 53
           \<longrightarrow> snd (rows df ! k) = snd t)"
    by (rule stored_cell)
  from f1 f3 i1 i3 s1 s3 show thesis by (rule that)
qed

section \<open>The claims\<close>

text \<open>
  C3, as amended. On a validated record whose fragment at position 1 (respectively 3) is a
  two-element split of hours and minutes that both read as integers, the sent-home
  (respectively admission) field of its row holds sixty times the hours plus the minutes
  as the table stores it: the value itself or its conversion to \<^verbatim>\<open>float64\<close>, and the value
  itself whenever the columns are \<^verbatim>\<open>int64\<close> or \<^verbatim>\<open>uint64\<close> columns or the value is below
  \<open>2^53\<close> in absolute value. A record with \<^verbatim>\<open>["2","30"]\<close> at position 1 gives 150.
\<close>

theorem hours_minutes_field:
  assumes "import_state_info textlist namelist hospital_names = Inr df"
    and "idx_list textlist = Inr idxs"
    and "k < length (rows df)"
    and "p = pruned_slices_list textlist idxs ! k"
    and "py_int hours = Inr h" and "py_int minutes = Inr m"
  shows "(p ! 1 = [hours, minutes] \<longrightarrow>
            (fst (rows df ! k) = 60 * h + m \<or> fst (rows df ! k) = np_float64 (60 * h + m))
          \<and> (dtype df = Int64 \<or> dtype df = UInt64 \<or> \<bar>60 * h + m\<bar> < 2 ^ 53
               \<longrightarrow> fst (rows df ! k) = 60 * h + m))
       \<and> (p ! 3 = [hours, minutes] \<longrightarrow>
            (snd (rows df ! k) = 60 * h + m \<or> snd (rows df ! k) = np_float64 (60 * h + m))
          \<and> (dtype df = Int64 \<or> dtype df = UInt64 \<or> \<bar>60 * h + m\<bar> < 2 ^ 53
               \<longrightarrow> snd (rows df ! k) = 60 * h + m))"
proof -
  from assms(1-4) obtain s a where
    f1: "minutes_at (py_slice p 0 5) 1 = Inr s" and f3: "minutes_at (py_slice p 0 5) 3 = Inr a"
    and i1: "py_index (py_slice p 0 5) 1 = Inr (p ! 1)"
    and i3: "py_index (py_slice p 0 5) 3 = Inr (p ! 3)"
    and s1: "(fst (rows df ! k) = s \<or> fst (rows df ! k) = np_float64 s)
      \<and> (dtype df = Int64 \<or> dtype df = UInt64 \<or> \<bar>s\<bar> < 2 ^ 53 \<longrightarrow> fst (rows df ! k) = s)"
    and s3: "(snd (rows df ! k) = a \<or> snd (rows df ! k) = np_float64 a)
      \<and> (dtype df = Int64 \<or> dtype df = UInt64 \<or> \<bar>a\<bar> < 2 ^ 53 \<longrightarrow> snd (rows df ! k) = a)"
    by (rule validated_fields)
  have "s = 60 * h + m" if "p ! 1 = [hours, minutes]"
    using hours_minutes_first_two [of "py_slice p 0 5" 1 hours minutes "[]" h m] i1 that assms(5,6) f1
    by simp
  with s1 have g1: "p ! 1 = [hours, minutes] \<Longrightarrow>
      (fst (rows df ! k) = 60 * h + m \<or> fst (rows df ! k) = np_float64 (60 * h + m))
      \<and> (dtype df = Int64 \<or> dtype df = UInt64 \<or> \<bar>60 * h + m\<bar> < 2 ^ 53
           \<longrightarrow> fst (rows df ! k) = 60 * h + m)"
    by simp
  have "a = 60 * h + m" if "p ! 3 = [hours, minutes]"
    using hours_minutes_first_two [of "py_slice p 0 5" 3 hours minutes "[]" h m] i3 that assms(5,6) f3
    by simp
  with s3 have g3: "p ! 3 = [hours, minutes] \<Longrightarrow>
      (snd (rows df ! k) = 60 * h + m \<or> snd (rows df ! k) = np_float64 (60 * h + m))
      \<and> (dtype df = Int64 \<or> dtype df = UInt64 \<or> \<bar>60 * h + m\<bar> < 2 ^ 53
           \<longrightarrow> snd (rows df ! k) = 60 * h + m)"
    by simp
  from g1 g3 show ?thesis by blast
qed

text \<open>
  The document with the texts \<^verbatim>\<open>2:30\<close> and \<^verbatim>\<open>45 min\<close>: an \<^verbatim>\<open>int64\<close> table, and 150.
\<close>

theorem hours_minutes_field_witness:
  "import_state_info (fragments_of ['''', ''2:30'', ''to'', ''45 min'', ''x'', '''']) [] False
     = Inr \<lparr>dtype = Int64, rows = [(150, 45)], index = None\<rparr>
   \<and> pruned_slices_list (fragments_of ['''', ''2:30'', ''to'', ''45 min'', ''x'', '''']) [0, 5] ! 0 ! 1
       = [''2'', ''30'']
   \<and> py_int ''2'' = Inr 2 \<and> py_int ''30'' = Inr 30
   \<and> fst (rows \<lparr>dtype = Int64, rows = [(150, 45)], index = None\<rparr> ! 0) = 60 * 2 + 30"
proof -
  let ?doc = "fragments_of ['''', ''2:30'', ''to'', ''45 min'', ''x'', '''']"
  let ?df = "\<lparr>dtype = Int64, rows = [(150, 45)], index = None\<rparr>"
  have a: "import_state_info ?doc [] False = Inr ?df" by code_simp
  have b: "idx_list ?doc = Inr [0, 5]" by code_simp
  have c: "0 < length (rows ?df)" by simp
  have d: "pruned_slices_list ?doc [0, 5] ! 0 ! 1 = [''2'', ''30'']" by code_simp
  have e: "py_int ''2'' = Inr 2" by code_simp
  have f: "py_int ''30'' = Inr 30" by code_simp
  have i: "dtype ?df = Int64" by simp
  have g: "fst (rows ?df ! 0) = 60 * 2 + 30"
    using hours_minutes_field [OF a b c refl e f] d i by blast
  from a d e f g show ?thesis by blast
qed

text \<open>
  C3 as stated fails where the value leaves the signed 64-bit range: the sent-home text
  \<^verbatim>\<open>153722867280912931:07\<close> gives \<open>2^63 + 59\<close>, a \<^verbatim>\<open>uint64\<close> column beside the \<^verbatim>\<open>int64\<close>
  column of the admission times, and the common \<^verbatim>\<open>float64\<close> array holds \<open>2^63\<close>.
\<close>

theorem hours_minutes_field_counterexample:
  "import_state_info
     (fragments_of ['''', ''153722867280912931:07'', ''to'', ''1:05'', ''x'', '''']) [] False
     = Inr \<lparr>dtype = Float64, rows = [(9223372036854775808, 65)], index = None\<rparr>
   \<and> pruned_slices_list
         (fragments_of ['''', ''153722867280912931:07'', ''to'', ''1:05'', ''x'', '''']) [0, 5] ! 0 ! 1
       = [''153722867280912931'', ''07'']
   \<and> py_int ''153722867280912931'' = Inr 153722867280912931 \<and> py_int ''07'' = Inr 7
   \<and> 60 * 153722867280912931 + 7 = (9223372036854775867 :: int)
   \<and> fst (hd (rows \<lparr>dtype = Float64, rows = [(9223372036854775808, 65)], index = None\<rparr>))
       \<noteq> 9223372036854775867"
  by code_simp


text \<open>
  C10, as amended. The first form of a field reads only the first two elements of the
  fragment: on a validated record whose fragment at position 1 (respectively 3) has two
  or more elements, the first two reading as integers \<open>h\<close> and \<open>m\<close>, the first form does
  not raise, whatever the further elements are, and the field of the row holds
  \<open>60 * h + m\<close> as the table stores it: the value itself or its conversion to
  \<^verbatim>\<open>float64\<close>, and the value itself whenever the columns are \<^verbatim>\<open>int64\<close> or \<^verbatim>\<open>uint64\<close>
  columns or the value is below \<open>2^53\<close> in absolute value.
\<close>

theorem first_two_elements_only:
  assumes "import_state_info textlist namelist hospital_names = Inr df"
    and "idx_list textlist = Inr idxs"
    and "k < length (rows df)"
    and "p = pruned_slices_list textlist idxs ! k"
    and "py_int hours = Inr h" and "py_int minutes = Inr m"
  shows "(p ! 1 = hours # minutes # others \<longrightarrow>
            \<not> isl (hours_minutes (py_slice p 0 5) 1)
          \<and> (fst (rows df ! k) = 60 * h + m \<or> fst (rows df ! k) = np_float64 (60 * h + m))
          \<and> (dtype df = Int64 \<or> dtype df = UInt64 \<or> \<bar>60 * h + m\<bar> < 2 ^ 53
               \<longrightarrow> fst (rows df ! k) = 60 * h + m))
       \<and> (p ! 3 = hours # minutes # others \<longrightarrow>
            \<not> isl (hours_minutes (py_slice p 0 5) 3)
          \<and> (snd (rows df ! k) = 60 * h + m \<or> snd (rows df ! k) = np_float64 (60 * h + m))
          \<and> (dtype df = Int64 \<or> dtype df = UInt64 \<or> \<bar>60 * h + m\<bar> < 2 ^ 53
               \<longrightarrow> snd (rows df ! k) = 60 * h + m))"
proof -
  from assms(1-4) obtain s a where
    f1: "minutes_at (py_slice p 0 5) 1 = Inr s" and f3: "minutes_at (py_slice p 0 5) 3 = Inr a"
    and i1: "py_index (py_slice p 0 5) 1 = Inr (p ! 1)"
    and i3: "py_index (py_slice p 0 5) 3 = Inr (p ! 3)"
    and s1: "(fst (rows df ! k) = s \<or> fst (rows df ! k) = np_float64 s)
      \<and> (dtype df = Int64 \<or> dtype df = UInt64 \<or> \<bar>s\<bar> < 2 ^ 53 \<longrightarrow> fst (rows df ! k) = s)"
    and s3: "(snd (rows df ! k) = a \<or> snd (rows df ! k) = np_float64 a)
      \<and> (dtype df = Int64 \<or> dtype df = UInt64 \<or> \<bar>a\<bar> < 2 ^ 53 \<longrightarrow> snd (rows df ! k) = a)"
    by (rule validated_fields)
  have reads: "\<not> isl (hours_minutes tmp i)" if "py_index tmp i = Inr (hours # minutes # others)"
    for tmp i
    using hours_minutes_isl [OF that] assms(5,6) by simp
  have "s = 60 * h + m" if "p ! 1 = hours # minutes # others"
    using hours_minutes_first_two [of "py_slice p 0 5" 1 hours minutes others h m] i1 that assms(5,6) f1
    by simp
  with s1 reads [of "py_slice p 0 5" 1] i1 have g1: "p ! 1 = hours # minutes # others \<Longrightarrow>
      \<not> isl (hours_minutes (py_slice p 0 5) 1)
      \<and> (fst (rows df ! k) = 60 * h + m \<or> fst (rows df ! k) = np_float64 (60 * h + m))
      \<and> (dtype df = Int64 \<or> dtype df = UInt64 \<or> \<bar>60 * h + m\<bar> < 2 ^ 53
           \<longrightarrow> fst (rows df ! k) = 60 * h + m)"
    by simp
  have "a = 60 * h + m" if "p ! 3 = hours # minutes # others"
    using hours_minutes_first_two [of "py_slice p 0 5" 3 hours minutes others h m] i3 that assms(5,6) f3
    by simp
  with s3 reads [of "py_slice p 0 5" 3] i3 have g3: "p ! 3 = hours # minutes # others \<Longrightarrow>
      \<not> isl (hours_minutes (py_slice p 0 5) 3)
      \<and> (snd (rows df ! k) = 60 * h + m \<or> snd (rows df ! k) = np_float64 (60 * h + m))
      \<and> (dtype df = Int64 \<or> dtype df = UInt64 \<or> \<bar>60 * h + m\<bar> < 2 ^ 53
           \<longrightarrow> snd (rows df ! k) = 60 * h + m)"
    by simp
  from g1 g3 show ?thesis by blast
qed

text \<open>
  A document whose admission text is \<^verbatim>\<open>1:05:59\<close>: the third part is not read.
\<close>

theorem first_two_elements_only_witness:
  "import_state_info (fragments_of ['''', ''2:30'', ''to'', ''1:05:59'', ''x'', '''']) [] False
     = Inr \<lparr>dtype = Int64, rows = [(150, 65)], index = None\<rparr>
   \<and> pruned_slices_list (fragments_of ['''', ''2:30'', ''to'', ''1:05:59'', ''x'', '''']) [0, 5] ! 0 ! 3
       = [''1'', ''05'', ''59'']
   \<and> py_int ''1'' = Inr 1 \<and> py_int ''05'' = Inr 5
   \<and> snd (rows \<lparr>dtype = Int64, rows = [(150, 65)], index = None\<rparr> ! 0) = 60 * 1 + 5"
proof -
  let ?doc = "fragments_of ['''', ''2:30'', ''to'', ''1:05:59'', ''x'', '''']"
  let ?df = "\<lparr>dtype = Int64, rows = [(150, 65)], index = None\<rparr>"
  have a: "import_state_info ?doc [] False = Inr ?df" by code_simp
  have b: "idx_list ?doc = Inr [0, 5]" by code_simp
  have c: "0 < length (rows ?df)" by simp
  have d: "pruned_slices_list ?doc [0, 5] ! 0 ! 3 = [''1'', ''05'', ''59'']" by code_simp
  have e: "py_int ''1'' = Inr 1" by code_simp
  have f: "py_int ''05'' = Inr 5" by code_simp
  have i: "dtype ?df = Int64" by simp
  have g: "snd (rows ?df ! 0) = 60 * 1 + 5"
    using first_two_elements_only [OF a b c refl e f, of "[''59'']"] d i by blast
  from a d e f g show ?thesis by blast
qed

text \<open>
  C10 as stated fails on the admission text \<^verbatim>\<open>153722867280912931:07:59\<close>: the first form
  does not raise and computes \<open>2^63 + 59\<close>, and the field of the table is \<open>2^63\<close>.
\<close>

theorem first_two_elements_only_counterexample:
  "import_state_info
     (fragments_of ['''', ''1:05'', ''to'', ''153722867280912931:07:59'', ''x'', '''']) [] False
     = Inr \<lparr>dtype = Float64, rows = [(65, 9223372036854775808)], index = None\<rparr>
   \<and> pruned_slices_list
         (fragments_of ['''', ''1:05'', ''to'', ''153722867280912931:07:59'', ''x'', '''']) [0, 5] ! 0 ! 3
       = [''153722867280912931'', ''07'', ''59'']
   \<and> py_int ''153722867280912931'' = Inr 153722867280912931 \<and> py_int ''07'' = Inr 7
   \<and> 60 * 153722867280912931 + 7 = (9223372036854775867 :: int)
   \<and> snd (hd (rows \<lparr>dtype = Float64, rows = [(65, 9223372036854775808)], index = None\<rparr>))
       \<noteq> 9223372036854775867"
  by code_simp

text \<open>
  C4, as amended. On a validated record whose fragment at position 1 (respectively 3) makes
  the first form raise, \<^verbatim>\<open>IndexError\<close> or \<^verbatim>\<open>ValueError\<close>, the field is read by the second
  form: \<^verbatim>\<open>int\<close> of the first element of the fragment up to its first space character
  (U+0020), with \<^verbatim>\<open>IndexError\<close> for an empty fragment. The function cuts at the space
  character only, not at every white-space character. When the call returns, the field
  of the row holds that integer as the table stores it: the value itself or its
  conversion to \<^verbatim>\<open>float64\<close>, and the value itself whenever the columns are \<^verbatim>\<open>int64\<close> or
  \<^verbatim>\<open>uint64\<close> columns or the value is below \<open>2^53\<close> in absolute value.
\<close>

theorem fallback_first_space_token:
  assumes "idx_list textlist = Inr idxs"
    and "k < length (pruned_slices_list textlist idxs)"
    and "p = pruned_slices_list textlist idxs ! k"
    and "i = 1 \<or> i = 3"
    and "hours_minutes (py_slice p 0 5) i = Inl e"
    and "cell = (if i = 1 then fst (rows df ! k) else snd (rows df ! k))"
  shows "minutes_at (py_slice p 0 5) i
           = (case p ! i of
                [] \<Rightarrow> Inl IndexError
              | s # others \<Rightarrow> py_int (takeWhile (\<lambda>c. c \<noteq> CHR '' '') s))
       \<and> (import_state_info textlist namelist hospital_names = Inr df \<longrightarrow>
            (\<exists>s others v. p ! i = s # others
               \<and> py_int (takeWhile (\<lambda>c. c \<noteq> CHR '' '') s) = Inr v
               \<and> (cell = v \<or> cell = np_float64 v)
               \<and> (dtype df = Int64 \<or> dtype df = UInt64 \<or> \<bar>v\<bar> < 2 ^ 53 \<longrightarrow> cell = v)))"
proof -
  let ?tmp = "py_slice p 0 5"
  let ?tok = "case p ! i of
                [] \<Rightarrow> Inl IndexError
              | s # others \<Rightarrow> py_int (takeWhile (\<lambda>c. c \<noteq> CHR '' '') s)"
  from assms(2,3) have "p \<in> set (pruned_slices_list textlist idxs)" by simp
  then have len: "length p = 5 \<or> length p = 6" by (rule pruned_length)
  from len assms(4) have ix: "py_index ?tmp i = Inr (p ! i)" by (rule record_field_index)
  from assms(5) have "isl (hours_minutes ?tmp i)" by simp
  then have "minutes_at ?tmp i = bare_minutes ?tmp i" by (rule minutes_at_fallback)
  with bare_minutes_token [OF ix] have tok: "minutes_at ?tmp i = ?tok" by simp
  have "\<exists>s others v. p ! i = s # others
          \<and> py_int (takeWhile (\<lambda>c. c \<noteq> CHR '' '') s) = Inr v
          \<and> (cell = v \<or> cell = np_float64 v)
          \<and> (dtype df = Int64 \<or> dtype df = UInt64 \<or> \<bar>v\<bar> < 2 ^ 53 \<longrightarrow> cell = v)"
    if ok: "import_state_info textlist namelist hospital_names = Inr df"
  proof -
    from rows_length [OF ok assms(1)] assms(2) have k: "k < length (rows df)" by simp
    from ok assms(1) k assms(3) obtain s a where
      f1: "minutes_at ?tmp 1 = Inr s" and f3: "minutes_at ?tmp 3 = Inr a"
      and s1: "(fst (rows df ! k) = s \<or> fst (rows df ! k) = np_float64 s)
        \<and> (dtype df = Int64 \<or> dtype df = UInt64 \<or> \<bar>s\<bar> < 2 ^ 53 \<longrightarrow> fst (rows df ! k) = s)"
      and s3: "(snd (rows df ! k) = a \<or> snd (rows df ! k) = np_float64 a)
        \<and> (dtype df = Int64 \<or> dtype df = UInt64 \<or> \<bar>a\<bar> < 2 ^ 53 \<longrightarrow> snd (rows df ! k) = a)"
      by (rule validated_fields)
    define v where "v = (if i = 1 then s else a)"
    from assms(4) f1 f3 have m: "minutes_at ?tmp i = Inr v" by (auto simp: v_def)
    from assms(4,6) s1 s3 have c: "(cell = v \<or> cell = np_float64 v)
        \<and> (dtype df = Int64 \<or> dtype df = UInt64 \<or> \<bar>v\<bar> < 2 ^ 53 \<longrightarrow> cell = v)"
      by (auto simp: v_def)
    from m tok have "?tok = Inr v" by simp
    then obtain s' others where "p ! i = s' # others"
      and "py_int (takeWhile (\<lambda>c. c \<noteq> CHR '' '') s') = Inr v"
      by (cases "p ! i") simp_all
    with c show ?thesis by blast
  qed
  with tok show ?thesis by blast
qed

text \<open>
  A document whose sent-home text is \<^verbatim>\<open>45 min\<close>, where the first form raises
  \<^verbatim>\<open>ValueError\<close>, and whose admission text is \<^verbatim>\<open>30\<close>, where it raises \<^verbatim>\<open>IndexError\<close>:
  the row is (45, 30).
\<close>

theorem fallback_first_space_token_witness:
  "idx_list (fragments_of ['''', ''45 min'', ''to'', ''30'', ''x'', '''']) = Inr [0, 5]
   \<and> hours_minutes (py_slice (pruned_slices_list
         (fragments_of ['''', ''45 min'', ''to'', ''30'', ''x'', '''']) [0, 5] ! 0) 0 5) 1
       = Inl ValueError
   \<and> minutes_at (py_slice (pruned_slices_list
         (fragments_of ['''', ''45 min'', ''to'', ''30'', ''x'', '''']) [0, 5] ! 0) 0 5) 1
       = Inr 45
   \<and> hours_minutes (py_slice (pruned_slices_list
         (fragments_of ['''', ''45 min'', ''to'', ''30'', ''x'', '''']) [0, 5] ! 0) 0 5) 3
       = Inl IndexError
   \<and> minutes_at (py_slice (pruned_slices_list
         (fragments_of ['''', ''45 min'', ''to'', ''30'', ''x'', '''']) [0, 5] ! 0) 0 5) 3
       = Inr 30
   \<and> import_state_info (fragments_of ['''', ''45 min'', ''to'', ''30'', ''x'', '''']) [] False
       = Inr \<lparr>dtype = Int64, rows = [(45, 30)], index = None\<rparr>"
proof -
  let ?doc = "fragments_of ['''', ''45 min'', ''to'', ''30'', ''x'', '''']"
  let ?p = "pruned_slices_list ?doc [0, 5] ! 0"
  let ?df = "\<lparr>dtype = Int64, rows = [(45, 30)], index = None\<rparr>"
  have a: "import_state_info ?doc [] False = Inr ?df" by code_simp
  have b: "idx_list ?doc = Inr [0, 5]" by code_simp
  have c: "0 < length (pruned_slices_list ?doc [0, 5])" by code_simp
  have h1: "hours_minutes (py_slice ?p 0 5) 1 = Inl ValueError" by code_simp
  have h3: "hours_minutes (py_slice ?p 0 5) 3 = Inl IndexError" by code_simp
  have v1: "(case ?p ! 1 of [] \<Rightarrow> Inl IndexError
             | s # others \<Rightarrow> py_int (takeWhile (\<lambda>c. c \<noteq> CHR '' '') s)) = Inr 45"
    by code_simp
  have v3: "(case ?p ! 3 of [] \<Rightarrow> Inl IndexError
             | s # others \<Rightarrow> py_int (takeWhile (\<lambda>c. c \<noteq> CHR '' '') s)) = Inr 30"
    by code_simp
  have i1: "(1::nat) = 1 \<or> (1::nat) = 3" by simp
  have i3: "(3::nat) = 1 \<or> (3::nat) = 3" by simp
  from fallback_first_space_token [OF b c refl i1 h1 refl]
  have "minutes_at (py_slice ?p 0 5) 1
          = (case ?p ! 1 of [] \<Rightarrow> Inl IndexError
             | s # others \<Rightarrow> py_int (takeWhile (\<lambda>c. c \<noteq> CHR '' '') s))"
    by (rule conjunct1)
  with v1 have m1: "minutes_at (py_slice ?p 0 5) 1 = Inr 45" by simp
  from fallback_first_space_token [OF b c refl i3 h3 refl]
  have "minutes_at (py_slice ?p 0 5) 3
          = (case ?p ! 3 of [] \<Rightarrow> Inl IndexError
             | s # others \<Rightarrow> py_int (takeWhile (\<lambda>c. c \<noteq> CHR '' '') s))"
    by (rule conjunct1)
  with v3 have m3: "minutes_at (py_slice ?p 0 5) 3 = Inr 30" by simp
  from a b h1 h3 m1 m3 show ?thesis by blast
qed

text \<open>
  C4 as stated fails where the number and the unit are separated by a tab: the first
  white-space-delimited token of \<^verbatim>\<open>45<TAB>min\<close> is \<^verbatim>\<open>45\<close>, but the function hands
  the whole string to \<^verbatim>\<open>int\<close> and the call raises \<^verbatim>\<open>ValueError\<close>.
\<close>

theorem fallback_whitespace_counterexample:
  "isl (hours_minutes [[''''], [''45'' @ [CHR 0x09] @ ''min''], [''to''], [''3'', ''10''], [''x'']] 1)
   \<and> py_int (spec_first_whitespace_token (''45'' @ [CHR 0x09] @ ''min'')) = Inr 45
   \<and> minutes_at [[''''], [''45'' @ [CHR 0x09] @ ''min''], [''to''], [''3'', ''10''], [''x'']] 1
       = Inl ValueError
   \<and> import_state_info
         [[''''], [''45'' @ [CHR 0x09] @ ''min''], [''to''], [''3'', ''10''], [''x''], ['''']] [] False
       = Inl ValueError"
  by code_simp

text \<open>
  C5, as amended. When a validated record has at position 1 or 3 a fragment on which both
  forms raise (its first two elements are not two integers, and its first element up to
  the first space is not an integer, or it is empty), the call raises, with or without
  labels requested: no table is returned, not even for the other records.
\<close>

theorem malformed_field_fails_call:
  assumes "idx_list textlist = Inr idxs"
    and "p \<in> set (pruned_slices_list textlist idxs)"
    and "f = p ! 1 \<or> f = p ! 3"
    and "length f < 2 \<or> isl (py_int (f ! 0)) \<or> isl (py_int (f ! 1))"
    and "f = [] \<or> isl (py_int (takeWhile (\<lambda>c. c \<noteq> CHR '' '') (hd f)))"
  shows "\<exists>e. import_state_info textlist namelist hospital_names = Inl e"
proof -
  from assms(2) have len: "length p = 5 \<or> length p = 6" by (rule pruned_length)
  have i1: "py_index (py_slice p 0 5) 1 = Inr (p ! 1)"
    and i3: "py_index (py_slice p 0 5) 3 = Inr (p ! 3)"
    using len by (simp_all add: record_field_index)
  from assms(3) have "isl (minutes_at (py_slice p 0 5) 1) \<or> isl (minutes_at (py_slice p 0 5) 3)"
  proof
    assume "f = p ! 1"
    with minutes_at_isl [OF i1] assms(4,5) show ?thesis by simp
  next
    assume "f = p ! 3"
    with minutes_at_isl [OF i3] assms(4,5) show ?thesis by simp
  qed
  then have "isl (record_times p)" by (rule record_times_isl)
  with assms(1,2) have "isl (import_state_info textlist namelist hospital_names)"
    by (rule import_isl)
  then show ?thesis
    by (cases "import_state_info textlist namelist hospital_names") simp_all
qed

text \<open>
  A document with two validated records, the first with the admission text \<^verbatim>\<open>n/a\<close>.
\<close>

theorem malformed_field_fails_call_witness:
  "idx_list (fragments_of ['''', ''2:30'', ''to'', ''n/a'', ''x'', '''', ''3:00'', ''to'', ''4:00'', ''y'', ''''])
     = Inr [0, 5, 10]
   \<and> fragments_of ['''', ''2:30'', ''to'', ''n/a'', ''x''] \<in> set (pruned_slices_list
         (fragments_of ['''', ''2:30'', ''to'', ''n/a'', ''x'', '''', ''3:00'', ''to'', ''4:00'', ''y'', '''']) [0, 5, 10])
   \<and> fragments_of ['''', ''2:30'', ''to'', ''n/a'', ''x''] ! 3 = [''n/a'']
   \<and> length [''n/a''] < 2
   \<and> isl (py_int (takeWhile (\<lambda>c. c \<noteq> CHR '' '') (hd [''n/a''])))
   \<and> (\<exists>e. import_state_info
         (fragments_of ['''', ''2:30'', ''to'', ''n/a'', ''x'', '''', ''3:00'', ''to'', ''4:00'', ''y'', ''''])
         [] True = Inl e)"
proof -
  let ?doc = "fragments_of ['''', ''2:30'', ''to'', ''n/a'', ''x'', '''', ''3:00'', ''to'', ''4:00'', ''y'', '''']"
  let ?p = "fragments_of ['''', ''2:30'', ''to'', ''n/a'', ''x'']"
  have a: "idx_list ?doc = Inr [0, 5, 10]" by code_simp
  have b: "?p \<in> set (pruned_slices_list ?doc [0, 5, 10])" by code_simp
  have c: "?p ! 3 = [''n/a'']" by code_simp
  then have c': "[''n/a''] = ?p ! 1 \<or> [''n/a''] = ?p ! 3" by simp
  have d: "length [''n/a''] < 2" by simp
  then have d': "length [''n/a''] < 2 \<or> isl (py_int ([''n/a''] ! 0)) \<or> isl (py_int ([''n/a''] ! 1))"
    by (rule disjI1)
  have e: "isl (py_int (takeWhile (\<lambda>c. c \<noteq> CHR '' '') (hd [''n/a''])))" by code_simp
  then have e': "[''n/a''] = [] \<or> isl (py_int (takeWhile (\<lambda>c. c \<noteq> CHR '' '') (hd [''n/a''])))"
    by (rule disjI2)
  from malformed_field_fails_call [OF a b c' d' e', of "[]" True] a b c d e
  show ?thesis by blast
qed

text \<open>
  C5 as stated fails on the sent-home text \<^verbatim>\<open>2:xx\<close>: the fragment is neither an
  hours:minutes pair nor a bare count of minutes, and the call returns, with 2 minutes
  read from the first part.
\<close>

theorem malformed_field_counterexample:
  "pruned_slices_list (fragments_of ['''', ''2:xx'', ''to'', ''1:05'', ''x'', '''']) [0, 5] ! 0 ! 1
     = [''2'', ''xx'']
   \<and> \<not> spec_hours_minutes_pair [''2'', ''xx'']
   \<and> \<not> spec_bare_minutes_form [''2'', ''xx'']
   \<and> import_state_info (fragments_of ['''', ''2:xx'', ''to'', ''1:05'', ''x'', '''']) [] False
       = Inr \<lparr>dtype = Int64, rows = [(2, 65)], index = None\<rparr>"
  by code_simp

text \<open>
  C9. The row of a validated record of six fragments is what the table stores of the
  times that the loop body computes for its first five fragments, and for these five
  followed by any sixth fragment; the whole table is the array of the times computed
  from the first five fragments of the validated records.
\<close>

theorem sixth_fragment_ignored:
  assumes "import_state_info textlist namelist hospital_names = Inr df"
    and "idx_list textlist = Inr idxs"
    and "k < length (rows df)"
    and "p = pruned_slices_list textlist idxs ! k"
    and "length p = 6"
  shows "length (take 5 p) = 5
       \<and> (\<exists>t. record_times (take 5 p) = Inr t \<and> record_times (take 5 p @ [x]) = Inr t
            \<and> (fst (rows df ! k) = fst t \<or> fst (rows df ! k) = np_float64 (fst t))
            \<and> (snd (rows df ! k) = snd t \<or> snd (rows df ! k) = np_float64 (snd t))
            \<and> (dtype df = Int64 \<or> dtype df = UInt64 \<longrightarrow> rows df ! k = t))
       \<and> (\<exists>ts. list_all2 (\<lambda>q t. record_times (take 5 q) = Inr t)
                   (pruned_slices_list textlist idxs) ts
              \<and> two_column_array (map fst ts) (map snd ts) = (dtype df, rows df))"
proof -
  have prefix: "record_times (take 5 q) = record_times q" for q
    by (simp add: record_times_def py_slice_def)
  have "record_times (take 5 p @ [x]) = record_times p"
    using assms(5) by (simp add: record_times_def py_slice_def)
  moreover from validated_row [OF assms(1-3)] assms(4) obtain t where
    "record_times p = Inr t"
    "fst (rows df ! k) = fst t \<or> fst (rows df ! k) = np_float64 (fst t)"
    "snd (rows df ! k) = snd t \<or> snd (rows df ! k) = np_float64 (snd t)"
    "dtype df = Int64 \<or> dtype df = UInt64 \<longrightarrow> rows df ! k = t"
    by blast
  ultimately have row: "\<exists>t. record_times (take 5 p) = Inr t \<and> record_times (take 5 p @ [x]) = Inr t
      \<and> (fst (rows df ! k) = fst t \<or> fst (rows df ! k) = np_float64 (fst t))
      \<and> (snd (rows df ! k) = snd t \<or> snd (rows df ! k) = np_float64 (snd t))
      \<and> (dtype df = Int64 \<or> dtype df = UInt64 \<longrightarrow> rows df ! k = t)"
    using prefix [of p] by auto
  from import_table [OF assms(1,2)]
  have "\<exists>ts. list_all2 (\<lambda>q t. record_times (take 5 q) = Inr t)
                (pruned_slices_list textlist idxs) ts
           \<and> two_column_array (map fst ts) (map snd ts) = (dtype df, rows df)"
    by (simp only: prefix)
  with row assms(5) show ?thesis by simp
qed

text \<open>
  A document with one record of six fragments.
\<close>

theorem sixth_fragment_ignored_witness:
  "import_state_info (fragments_of ['''', ''2:30'', ''to'', ''3:10'', ''x'', ''!'', '''']) [] False
     = Inr \<lparr>dtype = Int64, rows = [(150, 190)], index = None\<rparr>
   \<and> length (pruned_slices_list (fragments_of ['''', ''2:30'', ''to'', ''3:10'', ''x'', ''!'', '''']) [0, 6] ! 0) = 6
   \<and> record_times (take 5 (pruned_slices_list
         (fragments_of ['''', ''2:30'', ''to'', ''3:10'', ''x'', ''!'', '''']) [0, 6] ! 0))
       = Inr (rows \<lparr>dtype = Int64, rows = [(150, 190)], index = None\<rparr> ! 0)"
proof -
  let ?doc = "fragments_of ['''', ''2:30'', ''to'', ''3:10'', ''x'', ''!'', '''']"
  let ?df = "\<lparr>dtype = Int64, rows = [(150, 190)], index = None\<rparr>"
  have a: "import_state_info ?doc [] False = Inr ?df" by code_simp
  have b: "idx_list ?doc = Inr [0, 6]" by code_simp
  have c: "0 < length (rows ?df)" by simp
  have d: "length (pruned_slices_list ?doc [0, 6] ! 0) = 6" by code_simp
  have i: "dtype ?df = Int64" by simp
  from sixth_fragment_ignored [OF a b c refl d] i
  have "record_times (take 5 (pruned_slices_list ?doc [0, 6] ! 0)) = Inr (rows ?df ! 0)"
    by metis
  with a d show ?thesis by blast
qed

text \<open>
  C2. When the function returns, the rows of the table correspond one to one, in order,
  to the slices of length 5 or 6: the table is the array of the times that the loop body
  computes on these slices, and no other slice gives a row; slices of length 4 or 7 are
  not among them.
\<close>

theorem length_gate:
  assumes "import_state_info textlist namelist hospital_names = Inr df"
    and "idx_list textlist = Inr idxs"
  shows "length (rows df)
           = length (filter (\<lambda>s. length s = 5 \<or> length s = 6) (slices_list textlist idxs))
       \<and> (\<exists>ts. list_all2 (\<lambda>s t. record_times s = Inr t)
                   (filter (\<lambda>s. length s = 5 \<or> length s = 6) (slices_list textlist idxs)) ts
              \<and> two_column_array (map fst ts) (map snd ts) = (dtype df, rows df))
       \<and> list_all (\<lambda>s. length s \<noteq> 4 \<and> length s \<noteq> 7)
           (filter (\<lambda>s. length s = 5 \<or> length s = 6) (slices_list textlist idxs))"
proof -
  let ?kept = "filter (\<lambda>s. length s = 5 \<or> length s = 6) (slices_list textlist idxs)"
  from import_table [OF assms]
  have tab: "\<exists>ts. list_all2 (\<lambda>s t. record_times s = Inr t) ?kept ts
      \<and> two_column_array (map fst ts) (map snd ts) = (dtype df, rows df)"
    by (simp only: pruned_is_filter)
  from rows_length [OF assms] have "length (rows df) = length ?kept"
    by (simp only: pruned_is_filter)
  moreover have "list_all (\<lambda>s. length s \<noteq> 4 \<and> length s \<noteq> 7) ?kept"
    by (auto simp: list_all_iff)
  ultimately show ?thesis using tab by simp
qed

text \<open>
  A document with four slices, of lengths 4, 5, 6 and 7: two rows.
\<close>

theorem length_gate_witness:
  "import_state_info
     (fragments_of ['''', ''1:00'', ''a'', ''2:00'', '''', ''1:10'', ''a'', ''2:10'', ''b'', '''',
                    ''1:20'', ''a'', ''2:20'', ''b'', ''c'', '''', ''1:30'', ''a'', ''2:30'', ''b'', ''c'', ''d'', ''''])
     [] False = Inr \<lparr>dtype = Int64, rows = [(70, 130), (80, 140)], index = None\<rparr>
   \<and> map length (slices_list
        (fragments_of ['''', ''1:00'', ''a'', ''2:00'', '''', ''1:10'', ''a'', ''2:10'', ''b'', '''',
                    ''1:20'', ''a'', ''2:20'', ''b'', ''c'', '''', ''1:30'', ''a'', ''2:30'', ''b'', ''c'', ''d'', ''''])
        [0, 4, 9, 15, 22]) = [4, 5, 6, 7]
   \<and> length (rows \<lparr>dtype = Int64, rows = [(70, 130), (80, 140)], index = None\<rparr>)
       = length (filter (\<lambda>s. length s = 5 \<or> length s = 6) (slices_list
        (fragments_of ['''', ''1:00'', ''a'', ''2:00'', '''', ''1:10'', ''a'', ''2:10'', ''b'', '''',
                    ''1:20'', ''a'', ''2:20'', ''b'', ''c'', '''', ''1:30'', ''a'', ''2:30'', ''b'', ''c'', ''d'', ''''])
        [0, 4, 9, 15, 22]))"
proof -
  let ?doc = "fragments_of ['''', ''1:00'', ''a'', ''2:00'', '''', ''1:10'', ''a'', ''2:10'', ''b'', '''',
                    ''1:20'', ''a'', ''2:20'', ''b'', ''c'', '''', ''1:30'', ''a'', ''2:30'', ''b'', ''c'', ''d'', '''']"
  let ?df = "\<lparr>dtype = Int64, rows = [(70, 130), (80, 140)], index = None\<rparr>"
  have a: "import_state_info ?doc [] False = Inr ?df" by code_simp
  have b: "idx_list ?doc = Inr [0, 4, 9, 15, 22]" by code_simp
  have c: "map length (slices_list ?doc [0, 4, 9, 15, 22]) = [4, 5, 6, 7]" by code_simp
  from length_gate [OF a b] a c show ?thesis by blast
qed

text \<open>
  C7, as amended. When the function returns, both fields of every row are non-negative
  provided that no string in the fragments at positions 1 and 3 of the validated records
  contains a minus sign. The function makes no check of the sign: \<^verbatim>\<open>int\<close> accepts a signed
  number.
\<close>

theorem fields_nonnegative_without_minus:
  assumes "import_state_info textlist namelist hospital_names = Inr df"
    and "idx_list textlist = Inr idxs"
    and "\<forall>p\<in>set (pruned_slices_list textlist idxs). \<forall>s\<in>set (p ! 1) \<union> set (p ! 3). CHR ''-'' \<notin> set s"
  shows "\<forall>r\<in>set (rows df). 0 \<le> fst r \<and> 0 \<le> snd r"
proof
  fix r
  assume "r \<in> set (rows df)"
  then obtain k where k: "k < length (rows df)" and r: "r = rows df ! k"
    by (auto simp: in_set_conv_nth)
  let ?p = "pruned_slices_list textlist idxs ! k"
  from validated_row [OF assms(1,2) k] obtain t where
    kp: "k < length (pruned_slices_list textlist idxs)"
    and len: "length ?p = 5 \<or> length ?p = 6"
    and rt: "record_times ?p = Inr t"
    and c1: "fst (rows df ! k) = fst t \<or> fst (rows df ! k) = np_float64 (fst t)"
    and c2: "snd (rows df ! k) = snd t \<or> snd (rows df ! k) = np_float64 (snd t)"
    by blast
  from kp have "?p \<in> set (pruned_slices_list textlist idxs)" by simp
  with assms(3) have m1: "\<forall>s\<in>set (?p ! 1). CHR ''-'' \<notin> set s"
    and m3: "\<forall>s\<in>set (?p ! 3). CHR ''-'' \<notin> set s" by blast+
  have i1: "py_index (py_slice ?p 0 5) 1 = Inr (?p ! 1)"
    and i3: "py_index (py_slice ?p 0 5) 3 = Inr (?p ! 3)"
    using len by (simp_all add: record_field_index)
  from record_times_fields [OF rt]
  have f1: "minutes_at (py_slice ?p 0 5) 1 = Inr (fst t)"
    and f3: "minutes_at (py_slice ?p 0 5) 3 = Inr (snd t)" by simp_all
  from minutes_at_nonneg [OF i1 m1 f1] minutes_at_nonneg [OF i3 m3 f3]
  have n: "0 \<le> fst t" "0 \<le> snd t" by simp_all
  then have "0 \<le> np_float64 (fst t)" "0 \<le> np_float64 (snd t)"
    by (simp_all add: np_float64_nonneg)
  with n c1 c2 r show "0 \<le> fst r \<and> 0 \<le> snd r" by auto
qed

text \<open>
  The document with the texts \<^verbatim>\<open>2:30\<close> and \<^verbatim>\<open>45 min\<close>.
\<close>

theorem fields_nonnegative_without_minus_witness:
  "import_state_info (fragments_of ['''', ''2:30'', ''to'', ''45 min'', ''x'', '''']) [] False
     = Inr \<lparr>dtype = Int64, rows = [(150, 45)], index = None\<rparr>
   \<and> (150, 45) \<in> set (rows \<lparr>dtype = Int64, rows = [(150, 45)], index = None\<rparr>)
   \<and> 0 \<le> fst (150 :: int, 45 :: int) \<and> 0 \<le> snd (150 :: int, 45 :: int)"
proof -
  let ?doc = "fragments_of ['''', ''2:30'', ''to'', ''45 min'', ''x'', '''']"
  let ?df = "\<lparr>dtype = Int64, rows = [(150, 45)], index = None\<rparr>"
  have a: "import_state_info ?doc [] False = Inr ?df" by code_simp
  have b: "idx_list ?doc = Inr [0, 5]" by code_simp
  have c: "\<forall>p\<in>set (pruned_slices_list ?doc [0, 5]). \<forall>s\<in>set (p ! 1) \<union> set (p ! 3). CHR ''-'' \<notin> set s"
    by code_simp
  have d: "(150, 45) \<in> set (rows ?df)" by simp
  from fields_nonnegative_without_minus [OF a b c] d
  have "0 \<le> fst (150 :: int, 45 :: int) \<and> 0 \<le> snd (150 :: int, 45 :: int)"
    by (rule bspec)
  with a d show ?thesis by blast
qed

text \<open>
  C7 as stated fails on a document whose sent-home text is \<^verbatim>\<open>-1:30\<close>: the function
  returns, and the field is \<open>60 * (- 1) + 30 = - 30\<close>.
\<close>

theorem negative_field_counterexample:
  "import_state_info (fragments_of ['''', ''-1:30'', ''to'', ''1:05'', ''x'', '''']) [] False
     = Inr \<lparr>dtype = Int64, rows = [(- 30, 65)], index = None\<rparr>
   \<and> fst (hd (rows \<lparr>dtype = Int64, rows = [(- 30, 65)], index = None\<rparr>)) < 0"
  by code_simp

text \<open>
  C6, as amended. Let the call without labels return a table. The call with labels never
  raises and returns the same rows. It returns the default index exactly when the
  \<^verbatim>\<open>try\<close> block raises: no slice is retained, or an offset of a retained slice from the
  smallest one lies beyond \<^verbatim>\<open>namelist[9:-12]\<close>, or the anchor texts form a two-dimensional
  array with other than one column. In every other case labels are attached, whether or
  not the anchors fit the retained slices.
\<close>

theorem label_alignment_failure_degrades:
  assumes "import_state_info textlist namelist False = Inr df"
    and "idx_list textlist = Inr idxs"
    and "useable = useable_data_idx (map length (slices_list textlist idxs))"
    and "raises \<longleftrightarrow>
           useable = []
           \<or> (\<exists>i\<in>set useable. length (name_window namelist) \<le> i - Min (set useable))
           \<or> (is_table namelist \<and> length (hd namelist) \<noteq> 1)"
  shows "(raises \<longrightarrow> import_state_info textlist namelist True = Inr df \<and> index df = None)
       \<and> (\<not> raises \<longrightarrow>
            (\<exists>labels. import_state_info textlist namelist True = Inr (df\<lparr>index := Some labels\<rparr>)))"
proof -
  from rows_length_useable [OF assms(1,2)] assms(3)
  have n: "length (rows df) = length useable" by simp
  note lab = import_labelled [OF assms(1,2), folded assms(3), unfolded n]
  have "import_state_info textlist namelist True = Inr df \<and> index df = None" if raises
  proof -
    have "isl (hospital_index namelist useable (length useable))"
    proof (cases "useable = []")
      case True
      then show ?thesis by (simp add: hospital_index_no_rows)
    next
      case False
      with that assms(4) consider
        "\<exists>i\<in>set useable. length (name_window namelist) \<le> i - Min (set useable)"
        | "is_table namelist \<and> length (hd namelist) \<noteq> 1" by blast
      then show ?thesis
      proof cases
        case 1
        then show ?thesis by (auto simp: hospital_index_short)
      next
        case 2
        with False show ?thesis by (simp add: hospital_index_shape)
      qed
    qed
    then obtain e where "hospital_index namelist useable (length useable) = Inl e"
      by (cases "hospital_index namelist useable (length useable)") simp_all
    with lab have "import_state_info textlist namelist True = Inr df" by simp
    with import_unlabelled_index [OF assms(1)] show ?thesis by simp
  qed
  moreover have "\<exists>labels. import_state_info textlist namelist True = Inr (df\<lparr>index := Some labels\<rparr>)"
    if "\<not> raises"
  proof -
    from that assms(4) have "useable \<noteq> []"
      and "\<forall>i\<in>set useable. i - Min (set useable) < length (name_window namelist)"
      and "is_table namelist \<longrightarrow> length (hd namelist) = 1"
      by (auto simp: not_le)
    then obtain labels where "hospital_index namelist useable (length useable) = Inr labels"
      using hospital_index_labels by blast
    with lab have "import_state_info textlist namelist True = Inr (df\<lparr>index := Some labels\<rparr>)"
      by simp
    then show ?thesis by blast
  qed
  ultimately show ?thesis by blast
qed

text \<open>
  A page with three anchors only: \<^verbatim>\<open>namelist[9:-12]\<close> is empty.
\<close>

theorem label_alignment_failure_degrades_witness:
  "import_state_info (fragments_of ['''', ''2:30'', ''to'', ''45 min'', ''x'', ''''])
      (fragments_of [''Home'', ''About'', ''Mercy Hospital'']) False
     = Inr \<lparr>dtype = Int64, rows = [(150, 45)], index = None\<rparr>
   \<and> (\<exists>i\<in>set [0]. length (name_window (fragments_of [''Home'', ''About'', ''Mercy Hospital'']))
          \<le> i - Min (set [0::nat]))
   \<and> import_state_info (fragments_of ['''', ''2:30'', ''to'', ''45 min'', ''x'', ''''])
      (fragments_of [''Home'', ''About'', ''Mercy Hospital'']) True
     = Inr \<lparr>dtype = Int64, rows = [(150, 45)], index = None\<rparr>"
proof -
  let ?doc = "fragments_of ['''', ''2:30'', ''to'', ''45 min'', ''x'', '''']"
  let ?names = "fragments_of [''Home'', ''About'', ''Mercy Hospital'']"
  let ?df = "\<lparr>dtype = Int64, rows = [(150, 45)], index = None\<rparr>"
  have a: "import_state_info ?doc ?names False = Inr ?df" by code_simp
  have b: "idx_list ?doc = Inr [0, 5]" by code_simp
  have c: "[0] = useable_data_idx (map length (slices_list ?doc [0, 5]))" by code_simp
  have d: "\<exists>i\<in>set [0]. length (name_window ?names) \<le> i - Min (set [0::nat])" by code_simp
  then have d': "True \<longleftrightarrow> [0] = [] \<or> (\<exists>i\<in>set [0]. length (name_window ?names) \<le> i - Min (set [0::nat]))
      \<or> (is_table ?names \<and> length (hd ?names) \<noteq> 1)" by blast
  from label_alignment_failure_degrades [OF a b c d'] a d show ?thesis by blast
qed

text \<open>
  C6 as stated fails on a page with one anchor too many for its single retained slice:
  nothing raises, and the table is returned with a label.
\<close>

theorem surplus_anchors_counterexample:
  "useable_data_idx (map length (slices_list
       (fragments_of ['''', ''2:30'', ''to'', ''45 min'', ''x'', '''']) [0, 5])) = [0]
   \<and> length (fragments_of
        [''Home'', ''News'', ''Data'', ''Graphics'', ''States'', ''Methods'',
         ''About'', ''Donate'', ''Search'', ''Mercy Hospital'', ''County Clinic'', ''Contact'',
         ''Jobs'', ''Staff'', ''Privacy'', ''Terms'', ''Feeds'', ''Archive'',
         ''Events'', ''Store'', ''Press'', ''Support'', ''Top'']) = 23
   \<and> \<not> spec_anchor_stream_consistent
        (fragments_of
          [''Home'', ''News'', ''Data'', ''Graphics'', ''States'', ''Methods'',
           ''About'', ''Donate'', ''Search'', ''Mercy Hospital'', ''County Clinic'', ''Contact'',
           ''Jobs'', ''Staff'', ''Privacy'', ''Terms'', ''Feeds'', ''Archive'',
           ''Events'', ''Store'', ''Press'', ''Support'', ''Top'']) [0]
   \<and> import_state_info (fragments_of ['''', ''2:30'', ''to'', ''45 min'', ''x'', ''''])
        (fragments_of
          [''Home'', ''News'', ''Data'', ''Graphics'', ''States'', ''Methods'',
           ''About'', ''Donate'', ''Search'', ''Mercy Hospital'', ''County Clinic'', ''Contact'',
           ''Jobs'', ''Staff'', ''Privacy'', ''Terms'', ''Feeds'', ''Archive'',
           ''Events'', ''Store'', ''Press'', ''Support'', ''Top'']) True
       = Inr \<lparr>dtype = Int64, rows = [(150, 45)], index = Some [Name ''Mercy Hospital'']\<rparr>"
  by code_simp

text \<open>
  C1. The separator positions are the indices where a fragment equals \<^verbatim>\<open>[""]\<close>, plus the
  final index. The function departs from this on a document whose last text, \<^verbatim>\<open>x\<close>, also
  occurs at index 2: it takes the positions 0, 2 and 5 where the claim names 0 and 5.
  With the positions 0 and 5 the slice of the indices 0 to 4 gives the times (90, 120);
  the function cuts it in two and returns an empty table.
\<close>

theorem separator_cut_at_equal_fragment:
  "idx_list (fragments_of ['''', ''1:30'', ''x'', ''2:00'', ''y'', ''x'']) = Inr [0, 2, 5]
   \<and> spec_separator_positions (fragments_of ['''', ''1:30'', ''x'', ''2:00'', ''y'', ''x'']) = [0, 5]
   \<and> import_state_info (fragments_of ['''', ''1:30'', ''x'', ''2:00'', ''y'', ''x'']) [] False
       = Inr \<lparr>dtype = Float64, rows = [], index = None\<rparr>
   \<and> times_loop (pruned_slices_list (fragments_of ['''', ''1:30'', ''x'', ''2:00'', ''y'', ''x''])
         (spec_separator_positions (fragments_of ['''', ''1:30'', ''x'', ''2:00'', ''y'', ''x'']))) [] []
       = Inr ([90], [120])"
  by code_simp

end
